theory Spec2Isabelle
  imports Complex_Main "HOL-Library.Sublist" "HOL-Library.Product_Lexorder"
begin

section \<open>Exceptions and callback outcomes\<close>

text \<open>
  The exception classes of \<^verbatim>\<open>core/exceptions.py\<close> that the modelled code raises, and
  the built-in Python exceptions it can run into.  The string of a
  \<open>CommunicationException\<close> or \<open>AgentException\<close> is the fixed prefix of its message.
\<close>

datatype error =
    CommunicationException string
  | AgentException string
  | HookException string
  | AttributeError
  | KeyError
  | IndexError

text \<open>
  What awaiting a callback does: it returns, or it raises an instance of \<open>Exception\<close>
  (the only thing an \<^verbatim>\<open>except Exception\<close> clause catches).  The listeners of the event
  system and the handlers subscribed through the bus are taken not to call back into the
  component that invokes them; the handlers of the in-memory broker may subscribe and
  unsubscribe while they run (see there).
\<close>

datatype outcome = Returned | Raised string

section \<open>The event system (communication/event\_system.py)\<close>

datatype EventType =
    CALL_STARTED | CALL_ENDED | TRANSCRIPTION_COMPLETED | SUMMARY_GENERATED
  | QUALITY_SCORED | CALL_ROUTED | AGENT_ASSIGNED | ESCALATION_TRIGGERED
  | SYSTEM_ALERT | PERFORMANCE_METRIC

record Event =
  event_id :: string
  event_type :: EventType
  source :: string
  timestamp :: int
  data :: "(string \<times> string) list"
  correlation_id :: "string option"

text \<open>
  An \<open>EventListener\<close> object: \<open>listener_id\<close> stands for the object's identity
  (\<^verbatim>\<open>id(listener)\<close>), \<open>handler\<close> and \<open>filter_func\<close> name the callables it holds.
\<close>

record EventListener =
  listener_id :: nat
  listener_types :: "EventType list"
  handler :: nat
  filter_func :: "nat option"

record EventSystem =
  listeners :: "EventType \<rightharpoonup> EventListener list"
  event_counts :: "nat \<Rightarrow> nat"
  event_history :: "Event list"
  max_history :: int
  events_processed :: nat
  listener_log :: "string list"

text \<open>Python's \<^verbatim>\<open>xs[i:]\<close> for an integer \<open>i\<close>: a negative \<open>i\<close> counts from the end,
  and \<open>-0\<close> is \<open>0\<close>.\<close>

definition py_slice_from :: "int \<Rightarrow> 'a list \<Rightarrow> 'a list" where
  "py_slice_from i xs =
     (let n = int (length xs);
          start = (if i < 0 then max 0 (n + i) else min i n)
      in drop (nat start) xs)"

text \<open>\<^verbatim>\<open>EventSystem._add_to_history\<close>.\<close>

definition add_to_history :: "EventSystem \<Rightarrow> Event \<Rightarrow> EventSystem" where
  "add_to_history es event =
     (let h = event_history es @ [event]
      in if int (length h) > max_history es
         then es\<lparr>event_history := py_slice_from (- max_history es) h\<rparr>
         else es\<lparr>event_history := h\<rparr>)"

text \<open>
  \<^verbatim>\<open>EventSystem._notify_listeners\<close>: the loop over the listeners of the event's type.
  \<open>fbeh f e\<close> is what the filter \<open>f\<close> does on \<open>e\<close> (\<open>Inr b\<close>: returns \<open>b\<close>; \<open>Inl m\<close>: raises),
  \<open>hbeh h e\<close> what the handler \<open>h\<close> does.  Both failures are caught and logged inside the
  loop body.
\<close>

fun notify_loop ::
  "(nat \<Rightarrow> Event \<Rightarrow> string + bool) \<Rightarrow> (nat \<Rightarrow> Event \<Rightarrow> outcome) \<Rightarrow>
   EventListener list \<Rightarrow> Event \<Rightarrow> EventSystem \<Rightarrow> EventSystem" where
  "notify_loop fbeh hbeh [] event es = es"
| "notify_loop fbeh hbeh (l # ls) event es =
     (case (case filter_func l of None \<Rightarrow> Inr True | Some f \<Rightarrow> fbeh f event) of
        Inl m \<Rightarrow> notify_loop fbeh hbeh ls event (es\<lparr>listener_log := listener_log es @ [m]\<rparr>)
      | Inr False \<Rightarrow> notify_loop fbeh hbeh ls event es
      | Inr True \<Rightarrow>
          (case hbeh (handler l) event of
             Raised m \<Rightarrow>
               notify_loop fbeh hbeh ls event (es\<lparr>listener_log := listener_log es @ [m]\<rparr>)
           | Returned \<Rightarrow>
               notify_loop fbeh hbeh ls event
                 (es\<lparr>event_counts := (event_counts es)
                        (listener_id l := event_counts es (listener_id l) + 1)\<rparr>)))"

definition notify_listeners ::
  "(nat \<Rightarrow> Event \<Rightarrow> string + bool) \<Rightarrow> (nat \<Rightarrow> Event \<Rightarrow> outcome) \<Rightarrow>
   Event \<Rightarrow> EventSystem \<Rightarrow> EventSystem" where
  "notify_listeners fbeh hbeh event es =
     (case listeners es (event_type event) of
        None \<Rightarrow> es
      | Some ls \<Rightarrow> notify_loop fbeh hbeh ls event es)"

text \<open>One iteration of \<^verbatim>\<open>EventSystem._process_events\<close> that has pulled \<open>event\<close> from
  the queue.\<close>

definition process_event ::
  "(nat \<Rightarrow> Event \<Rightarrow> string + bool) \<Rightarrow> (nat \<Rightarrow> Event \<Rightarrow> outcome) \<Rightarrow>
   EventSystem \<Rightarrow> Event \<Rightarrow> EventSystem" where
  "process_event fbeh hbeh es event =
     (let es1 = add_to_history es event;
          es2 = notify_listeners fbeh hbeh event es1
      in es2\<lparr>events_processed := events_processed es2 + 1\<rparr>)"

text \<open>\<^verbatim>\<open>EventSystem.__init__\<close>.\<close>

definition new_event_system :: "int \<Rightarrow> EventSystem" where
  "new_event_system mh =
     \<lparr>listeners = Map.empty, event_counts = (\<lambda>_. 0), event_history = [],
      max_history = mh, events_processed = 0, listener_log = []\<rparr>"

section \<open>Messages (core/base\_agent.py)\<close>

datatype MessageType =
    CALL_INTAKE | TRANSCRIPTION | SUMMARY | QUALITY_SCORE | ROUTING
  | ERROR | STATUS | CONTROL

fun MessageType_value :: "MessageType \<Rightarrow> string" where
  "MessageType_value CALL_INTAKE = ''call_intake''"
| "MessageType_value TRANSCRIPTION = ''transcription''"
| "MessageType_value SUMMARY = ''summary''"
| "MessageType_value QUALITY_SCORE = ''quality_score''"
| "MessageType_value ROUTING = ''routing''"
| "MessageType_value ERROR = ''error''"
| "MessageType_value STATUS = ''status''"
| "MessageType_value CONTROL = ''control''"

text \<open>
  The object held by the \<open>type\<close> field of a \<open>Message\<close>.  The model class is declared with
  \<^verbatim>\<open>use_enum_values = True\<close>, so the field may hold the enum member or its plain string
  value; \<open>MessageType\<close> is a \<^verbatim>\<open>str\<close> enum, so both compare equal to the member, but only
  the member has a \<^verbatim>\<open>.value\<close> attribute.
\<close>

datatype type_field = EnumMember MessageType | EnumValue string

fun type_eq :: "type_field \<Rightarrow> MessageType \<Rightarrow> bool" where
  "type_eq (EnumMember t) m = (t = m)"
| "type_eq (EnumValue v) m = (v = MessageType_value m)"

fun type_value :: "type_field \<Rightarrow> error + string" where
  "type_value (EnumMember t) = Inr (MessageType_value t)"
| "type_value (EnumValue v) = Inl AttributeError"

record Message =
  msg_id :: string
  mtype :: type_field
  sender :: string
  recipient :: string
  payload :: "(string \<times> string) list"
  reply_to :: "string option"

section \<open>The in-memory broker (communication/message\_bus.py)\<close>

text \<open>
  \<open>subscriptions\<close> maps a topic to the list of its handlers, in the order of
  \<^verbatim>\<open>subscribe\<close> calls; \<open>delivered\<close> records the invocations the broker has made, in
  order, and \<open>broker_log\<close> the errors it has logged.  The handler type \<open>'h\<close> is whatever
  was subscribed.
\<close>

record 'h MemoryBroker =
  subscriptions :: "string \<rightharpoonup> 'h list"
  delivered :: "('h \<times> Message) list"
  broker_log :: "string list"

text \<open>\<^verbatim>\<open>MemoryBroker.subscribe\<close>: an append to the topic's list, which is created when
  the topic is new.\<close>

definition MemoryBroker_subscribe :: "string \<Rightarrow> 'h \<Rightarrow> 'h MemoryBroker \<Rightarrow> 'h MemoryBroker" where
  "MemoryBroker_subscribe topic h b =
     (let subs = (case subscriptions b topic of
                    None \<Rightarrow> (subscriptions b)(topic \<mapsto> [])
                  | Some _ \<Rightarrow> subscriptions b)
      in b\<lparr>subscriptions := subs(topic \<mapsto> the (subs topic) @ [h])\<rparr>)"

text \<open>\<^verbatim>\<open>MemoryBroker.unsubscribe\<close>: the handler id is not looked at, the topic's list is
  cleared in place.\<close>

definition MemoryBroker_unsubscribe ::
  "string \<Rightarrow> nat \<Rightarrow> 'h MemoryBroker \<Rightarrow> 'h MemoryBroker" where
  "MemoryBroker_unsubscribe topic handler_id b =
     (case subscriptions b topic of
        None \<Rightarrow> b
      | Some _ \<Rightarrow> b\<lparr>subscriptions := (subscriptions b)(topic \<mapsto> [])\<rparr>)"

definition new_memory_broker :: "'h MemoryBroker" where
  "new_memory_broker = \<lparr>subscriptions = Map.empty, delivered = [], broker_log = []\<rparr>"

text \<open>
  A handler is an arbitrary callable and may call the broker while it runs.  The calls
  that change what the broker delivers to are \<^verbatim>\<open>subscribe\<close> and \<^verbatim>\<open>unsubscribe\<close>;
  \<open>broker_calls\<close> applies those a handler has made, in order.  (A publish made from inside
  a handler is a delivery of its own and is not followed here.)
\<close>

datatype 'h broker_call = CallSubscribe string 'h | CallUnsubscribe string nat

fun call_topic :: "'h broker_call \<Rightarrow> string" where
  "call_topic (CallSubscribe topic h) = topic"
| "call_topic (CallUnsubscribe topic handler_id) = topic"

fun broker_calls :: "'h broker_call list \<Rightarrow> 'h MemoryBroker \<Rightarrow> 'h MemoryBroker" where
  "broker_calls [] b = b"
| "broker_calls (CallSubscribe topic h # cs) b =
     broker_calls cs (MemoryBroker_subscribe topic h b)"
| "broker_calls (CallUnsubscribe topic handler_id # cs) b =
     broker_calls cs (MemoryBroker_unsubscribe topic handler_id b)"

text \<open>
  The loop \<^verbatim>\<open>for handler in self.subscriptions[topic]\<close> of \<^verbatim>\<open>MemoryBroker.publish\<close>,
  with its \<^verbatim>\<open>try\<close>/\<^verbatim>\<open>except Exception\<close> body, from position \<open>i\<close> of the iterator on.
  The iterator reads the topic's list object itself, which \<^verbatim>\<open>subscribe\<close> and
  \<^verbatim>\<open>unsubscribe\<close> change in place and never replace: after each handler the loop goes on
  with whatever the list then holds at the next position, and ends when the position is
  past the list's end.  Awaiting a handler is \<open>run h message w\<close>: the handler's outcome,
  the broker calls it has made, and the state \<open>w\<close> of whatever else it updates.  A loop
  that never ends (handlers that keep subscribing) has the value \<open>None\<close>.
\<close>

partial_function (option) memory_fanout ::
  "('h \<Rightarrow> Message \<Rightarrow> 'w \<Rightarrow> (outcome \<times> 'h broker_call list) \<times> 'w) \<Rightarrow> string \<Rightarrow> Message \<Rightarrow>
   nat \<Rightarrow> 'h MemoryBroker \<times> 'w \<Rightarrow> ('h MemoryBroker \<times> 'w) option" where
  "memory_fanout run topic message i bw =
     (case subscriptions (fst bw) topic of
        None \<Rightarrow> Some bw
      | Some hs \<Rightarrow>
          if i < length hs
          then (case run (hs ! i) message (snd bw) of
                  ((out, calls), w1) \<Rightarrow>
                    (let b1 = (fst bw)\<lparr>delivered := delivered (fst bw) @ [(hs ! i, message)]\<rparr>;
                         b2 = broker_calls calls b1
                     in case out of
                          Returned \<Rightarrow> memory_fanout run topic message (Suc i) (b2, w1)
                        | Raised m \<Rightarrow>
                            memory_fanout run topic message (Suc i)
                              (b2\<lparr>broker_log := broker_log b2 @ [m]\<rparr>, w1)))
          else Some bw)"

text \<open>\<^verbatim>\<open>MemoryBroker.publish\<close>: it has no \<^verbatim>\<open>raise\<close> and catches what its handlers
  raise, so when it returns, it returns normally.\<close>

definition MemoryBroker_publish ::
  "('h \<Rightarrow> Message \<Rightarrow> 'w \<Rightarrow> (outcome \<times> 'h broker_call list) \<times> 'w) \<Rightarrow> string \<Rightarrow> Message \<Rightarrow>
   'h MemoryBroker \<times> 'w \<Rightarrow> ((error + unit) \<times> 'h MemoryBroker \<times> 'w) option" where
  "MemoryBroker_publish run topic message bw =
     (case subscriptions (fst bw) topic of
        None \<Rightarrow> Some (Inr (), bw)
      | Some hs \<Rightarrow>
          (case memory_fanout run topic message 0 bw of
             None \<Rightarrow> None
           | Some bw1 \<Rightarrow> Some (Inr (), bw1)))"

text \<open>
  The same loop and publish for handlers that make no broker call while they run: the
  list does not change during the delivery, and the loop is a plain recursion over it
  (\<open>memory_fanout_quiet\<close> and \<open>MemoryBroker_publish_quiet_eq\<close> below show that this is
  what \<open>MemoryBroker_publish\<close> then computes).
\<close>

fun quiet_fanout ::
  "('h \<Rightarrow> Message \<Rightarrow> 'w \<Rightarrow> outcome \<times> 'w) \<Rightarrow> 'h list \<Rightarrow> Message \<Rightarrow>
   'h MemoryBroker \<times> 'w \<Rightarrow> 'h MemoryBroker \<times> 'w" where
  "quiet_fanout run [] message (b, w) = (b, w)"
| "quiet_fanout run (h # hs) message (b, w) =
     (let b1 = b\<lparr>delivered := delivered b @ [(h, message)]\<rparr>
      in case run h message w of
           (Returned, w1) \<Rightarrow> quiet_fanout run hs message (b1, w1)
         | (Raised m, w1) \<Rightarrow>
             quiet_fanout run hs message (b1\<lparr>broker_log := broker_log b1 @ [m]\<rparr>, w1))"

definition MemoryBroker_publish_quiet ::
  "('h \<Rightarrow> Message \<Rightarrow> 'w \<Rightarrow> outcome \<times> 'w) \<Rightarrow> string \<Rightarrow> Message \<Rightarrow>
   'h MemoryBroker \<times> 'w \<Rightarrow> (error + unit) \<times> 'h MemoryBroker \<times> 'w" where
  "MemoryBroker_publish_quiet run topic message bw =
     (case subscriptions (fst bw) topic of
        None \<Rightarrow> (Inr (), bw)
      | Some hs \<Rightarrow> (Inr (), quiet_fanout run hs message bw))"

text \<open>A handler that makes no broker call, as a handler of the general kind.\<close>

definition no_calls ::
  "('h \<Rightarrow> Message \<Rightarrow> 'w \<Rightarrow> outcome \<times> 'w) \<Rightarrow>
   'h \<Rightarrow> Message \<Rightarrow> 'w \<Rightarrow> (outcome \<times> 'h broker_call list) \<times> 'w" where
  "no_calls run h message w = (case run h message w of (out, w1) \<Rightarrow> ((out, []), w1))"

section \<open>The message bus (communication/message\_bus.py)\<close>

datatype MessageBrokerType = RABBITMQ | REDIS | MEMORY

record MessageHandler =
  handler_func :: nat
  message_types :: "MessageType list"
  message_count :: nat

text \<open>
  The closure \<^verbatim>\<open>wrapped_handler\<close> that \<^verbatim>\<open>MessageBus.subscribe\<close> hands to the broker:
  it captures the caller's handler (named by its identity \<^verbatim>\<open>id(handler_func)\<close>), the
  optional message-type filter and the topic.
\<close>

record wrapped_handler =
  w_func :: nat
  w_types :: "MessageType list option"
  w_topic :: string

text \<open>
  The broker behind the bus.  The two networked brokers are kept abstract: \<open>Remote c\<close> is a
  RabbitMQ or Redis broker whose channel or client object is present (\<open>c\<close>) or \<open>None\<close>;
  whether its library calls (exchange declaration, JSON encoding, network send) go
  through is the argument \<open>io_ok\<close> of the operations below.
\<close>

datatype broker = Memory "wrapped_handler MemoryBroker" | Remote bool

record audit_entry =
  a_topic :: string
  a_message_id :: string
  a_message_type :: string
  a_sender :: string
  a_recipient :: string
  a_action :: string

record MessageBus =
  bus_broker :: "broker option"
  is_connected :: bool
  handlers :: "string \<rightharpoonup> MessageHandler list"
  message_history :: "audit_entry list"
  messages_sent :: nat
  messages_received :: nat
  errors :: nat

definition new_bus :: MessageBus where
  "new_bus = \<lparr>bus_broker = None, is_connected = False, handlers = Map.empty,
     message_history = [], messages_sent = 0, messages_received = 0, errors = 0\<rparr>"

text \<open>\<^verbatim>\<open>MessageBus.initialize\<close>; \<open>connect_ok\<close> says whether the broker's
  \<^verbatim>\<open>connect\<close> returns (the memory broker's always does).\<close>

definition Bus_initialize :: "MessageBrokerType \<Rightarrow> bool \<Rightarrow> MessageBus \<Rightarrow> (error + unit) \<times> MessageBus" where
  "Bus_initialize broker_type connect_ok s =
     (if broker_type = MEMORY
      then (Inr (), s\<lparr>bus_broker := Some (Memory new_memory_broker), is_connected := True\<rparr>)
      else if connect_ok
      then (Inr (), s\<lparr>bus_broker := Some (Remote True), is_connected := True\<rparr>)
      else (Inl (CommunicationException ''Message bus initialization failed''),
            s\<lparr>bus_broker := Some (Remote False)\<rparr>))"

text \<open>\<^verbatim>\<open>MessageBus.shutdown\<close>.\<close>

definition Bus_shutdown :: "MessageBus \<Rightarrow> MessageBus" where
  "Bus_shutdown s = s\<lparr>is_connected := False\<rparr>"

text \<open>The first handler of the list whose function is \<open>hid\<close> gets its counter bumped
  (the \<^verbatim>\<open>for\<close> \<open>\<dots>\<close> \<^verbatim>\<open>break\<close> loop of \<^verbatim>\<open>wrapped_handler\<close>).\<close>

fun bump_first :: "nat \<Rightarrow> MessageHandler list \<Rightarrow> MessageHandler list" where
  "bump_first hid [] = []"
| "bump_first hid (h # hs) =
     (if handler_func h = hid then h\<lparr>message_count := message_count h + 1\<rparr> # hs
      else h # bump_first hid hs)"

text \<open>Awaiting \<^verbatim>\<open>wrapped_handler(message)\<close>; \<open>beh f m\<close> is what the caller's handler
  \<open>f\<close> does on \<open>m\<close>.  The closure catches every \<open>Exception\<close> itself.\<close>

definition wrapped_run ::
  "(nat \<Rightarrow> Message \<Rightarrow> outcome) \<Rightarrow> wrapped_handler \<Rightarrow> Message \<Rightarrow> MessageBus \<Rightarrow>
   outcome \<times> MessageBus" where
  "wrapped_run beh wh message s =
     (if (case w_types wh of
            None \<Rightarrow> False
          | Some ts \<Rightarrow> ts \<noteq> [] \<and> \<not> list_ex (type_eq (mtype message)) ts)
      then (Returned, s)
      else case beh (w_func wh) message of
             Raised m \<Rightarrow> (Returned, s\<lparr>errors := errors s + 1\<rparr>)
           | Returned \<Rightarrow>
               (let s1 = s\<lparr>messages_received := messages_received s + 1\<rparr>
                in case handlers s1 (w_topic wh) of
                     None \<Rightarrow> (Returned, s1)
                   | Some hs \<Rightarrow>
                       (Returned,
                        s1\<lparr>handlers := (handlers s1)(w_topic wh \<mapsto> bump_first (w_func wh) hs)\<rparr>)))"

text \<open>\<^verbatim>\<open>self.broker.publish(topic, message)\<close> as the bus calls it.  With no broker object
  the attribute access raises.  The handlers that callers subscribe through the bus are
  taken not to call the bus or its broker while they run, so the memory broker's
  delivery is the quiet one.\<close>

definition broker_publish ::
  "(nat \<Rightarrow> Message \<Rightarrow> outcome) \<Rightarrow> bool \<Rightarrow> string \<Rightarrow> Message \<Rightarrow> MessageBus \<Rightarrow>
   (error + unit) \<times> MessageBus" where
  "broker_publish beh io_ok topic message s =
     (case bus_broker s of
        None \<Rightarrow> (Inl AttributeError, s)
      | Some (Memory b) \<Rightarrow>
          (case MemoryBroker_publish_quiet (wrapped_run beh) topic message (b, s) of
             (r, b1, s1) \<Rightarrow> (r, s1\<lparr>bus_broker := Some (Memory b1)\<rparr>))
      | Some (Remote c) \<Rightarrow>
          (if c \<and> io_ok then (Inr (), s)
           else (Inl (CommunicationException ''Failed to publish message''), s)))"

text \<open>The \<^verbatim>\<open>except Exception\<close> clause of \<^verbatim>\<open>MessageBus.publish\<close>.\<close>

definition publish_failed :: "MessageBus \<Rightarrow> (error + unit) \<times> MessageBus" where
  "publish_failed s = (Inl (CommunicationException ''Publish failed''), s\<lparr>errors := errors s + 1\<rparr>)"

text \<open>\<^verbatim>\<open>MessageBus.publish\<close>.\<close>

definition Bus_publish ::
  "(nat \<Rightarrow> Message \<Rightarrow> outcome) \<Rightarrow> bool \<Rightarrow> string \<Rightarrow> Message \<Rightarrow> MessageBus \<Rightarrow>
   (error + unit) \<times> MessageBus" where
  "Bus_publish beh io_ok topic message s =
     (if \<not> is_connected s then publish_failed s
      else case broker_publish beh io_ok topic message s of
             (Inl e, s1) \<Rightarrow> publish_failed s1
           | (Inr u, s1) \<Rightarrow>
               (let s2 = s1\<lparr>messages_sent := messages_sent s1 + 1\<rparr>
                in case type_value (mtype message) of
                     Inl e \<Rightarrow> publish_failed s2
                   | Inr v \<Rightarrow>
                       (Inr (),
                        s2\<lparr>message_history := message_history s2 @
                             [\<lparr>a_topic = topic, a_message_id = msg_id message,
                               a_message_type = v, a_sender = sender message,
                               a_recipient = recipient message,
                               a_action = ''published''\<rparr>]\<rparr>)))"

text \<open>The handler bookkeeping of \<^verbatim>\<open>MessageBus.subscribe\<close> after the broker call.\<close>

definition track_handler ::
  "string \<Rightarrow> nat \<Rightarrow> MessageType list option \<Rightarrow> MessageBus \<Rightarrow> MessageBus" where
  "track_handler topic hf mts s =
     (let hs = (case handlers s topic of None \<Rightarrow> [] | Some l \<Rightarrow> l);
          h = \<lparr>handler_func = hf,
               message_types = (case mts of None \<Rightarrow> [] | Some ts \<Rightarrow> ts),
               message_count = 0\<rparr>
      in s\<lparr>handlers := (handlers s)(topic \<mapsto> hs @ [h])\<rparr>)"

definition subscribe_failed :: "MessageBus \<Rightarrow> (error + nat) \<times> MessageBus" where
  "subscribe_failed s =
     (Inl (CommunicationException ''Subscribe failed''), s\<lparr>errors := errors s + 1\<rparr>)"

text \<open>\<^verbatim>\<open>MessageBus.subscribe\<close>.  The token returned is \<^verbatim>\<open>str(id(handler_func))\<close>,
  modelled by the identity itself.\<close>

definition Bus_subscribe ::
  "bool \<Rightarrow> string \<Rightarrow> nat \<Rightarrow> MessageType list option \<Rightarrow> MessageBus \<Rightarrow>
   (error + nat) \<times> MessageBus" where
  "Bus_subscribe io_ok topic hf mts s =
     (if \<not> is_connected s then subscribe_failed s
      else case bus_broker s of
             None \<Rightarrow> subscribe_failed s
           | Some (Memory b) \<Rightarrow>
               (let b1 = MemoryBroker_subscribe topic
                           \<lparr>w_func = hf, w_types = mts, w_topic = topic\<rparr> b
                in (Inr hf, track_handler topic hf mts (s\<lparr>bus_broker := Some (Memory b1)\<rparr>)))
           | Some (Remote c) \<Rightarrow>
               (if c \<and> io_ok then (Inr hf, track_handler topic hf mts s)
                else subscribe_failed s))"

text \<open>The registry filter of \<^verbatim>\<open>MessageBus.unsubscribe\<close> after the broker call.\<close>

definition untrack_handler :: "string \<Rightarrow> nat \<Rightarrow> MessageBus \<Rightarrow> MessageBus" where
  "untrack_handler topic handler_id s =
     (case handlers s topic of
        None \<Rightarrow> s
      | Some hs \<Rightarrow>
          s\<lparr>handlers := (handlers s)(topic \<mapsto> filter (\<lambda>h. handler_func h \<noteq> handler_id) hs)\<rparr>)"

text \<open>\<^verbatim>\<open>MessageBus.unsubscribe\<close>; its \<^verbatim>\<open>except\<close> clause does not count an error.\<close>

definition Bus_unsubscribe ::
  "bool \<Rightarrow> string \<Rightarrow> nat \<Rightarrow> MessageBus \<Rightarrow> (error + unit) \<times> MessageBus" where
  "Bus_unsubscribe io_ok topic handler_id s =
     (case bus_broker s of
        None \<Rightarrow> (Inl (CommunicationException ''Unsubscribe failed''), s)
      | Some (Memory b) \<Rightarrow>
          (Inr (), untrack_handler topic handler_id
                     (s\<lparr>bus_broker := Some (Memory (MemoryBroker_unsubscribe topic handler_id b))\<rparr>))
      | Some (Remote c) \<Rightarrow>
          (if io_ok then (Inr (), untrack_handler topic handler_id s)
           else (Inl (CommunicationException ''Unsubscribe failed''), s)))"

section \<open>The agent frame (core/base\_agent.py)\<close>

datatype AgentState = IDLE | INITIALIZING | READY | PROCESSING | ERROR_STATE | SHUTDOWN

text \<open>
  The part of a \<open>BaseAgent\<close> its lifecycle methods touch.  \<open>state_history\<close> holds the
  recorded (old, new) pairs, oldest first (the timestamp of each entry is left out).
\<close>

record BaseAgent =
  state :: AgentState
  state_history :: "(AgentState \<times> AgentState) list"
  running :: bool
  message_handlers :: "MessageType list"
  tasks :: nat


text \<open>\<^verbatim>\<open>BaseAgent.set_state\<close>.\<close>

definition set_state :: "AgentState \<Rightarrow> BaseAgent \<Rightarrow> BaseAgent" where
  "set_state st a = a\<lparr>state := st, state_history := state_history a @ [(state a, st)]\<rparr>"

text \<open>What an abstract hook (\<^verbatim>\<open>_initialize\<close>, \<^verbatim>\<open>_start\<close>, \<^verbatim>\<open>_stop\<close>) of the
  concrete agent does when awaited.\<close>

datatype hook = HookOk | HookRaises string



text \<open>\<^verbatim>\<open>BaseAgent.start\<close>.\<close>

definition start :: "hook \<Rightarrow> BaseAgent \<Rightarrow> (error + unit) \<times> BaseAgent" where
  "start h a =
     (if state a \<noteq> READY
      then (Inl (AgentException ''Agent must be in READY state to start''), a)
      else (let a1 = a\<lparr>running := True, tasks := tasks a + 1\<rparr>
            in case h of
                 HookOk \<Rightarrow> (Inr (), a1)
               | HookRaises m \<Rightarrow> (Inl (HookException m), a1)))"








section \<open>The routing engine (agents/routing\_agent.py)\<close>

subsection \<open>Data\<close>

datatype RoutingDecision = AUTO_RESOLVE | AGENT_TRANSFER | ESCALATE | CALLBACK | END_CALL

datatype AgentSkillLevel = JUNIOR | INTERMEDIATE | SENIOR | SPECIALIST | SUPERVISOR

text \<open>
  \<open>performance_score\<close> and the load percentage are Python floats; they are modelled by the
  rationals they denote.  An integer quotient is rounded correctly and monotonically, so
  for loads and capacities of ordinary size the comparisons below agree with Python's.
\<close>

record AgentProfile =
  agent_id :: string
  name :: string
  skill_level :: AgentSkillLevel
  specializations :: "string list"
  current_load :: int
  max_capacity :: int
  availability :: bool
  performance_score :: rat
  languages :: "string list"

definition is_available :: "AgentProfile \<Rightarrow> bool" where
  "is_available a = (availability a \<and> current_load a < max_capacity a)"

definition load_percentage :: "AgentProfile \<Rightarrow> rat" where
  "load_percentage a =
     (if max_capacity a > 0
      then (of_int (current_load a) / of_int (max_capacity a)) * 100
      else 0)"

text \<open>The values a rule condition or a call attribute can hold, with Python's \<^verbatim>\<open>==\<close>
  on them (\<^verbatim>\<open>True == 1\<close> and \<^verbatim>\<open>False == 0\<close>).\<close>

datatype pyval = PStr string | PBool bool | PInt int

fun py_eq :: "pyval \<Rightarrow> pyval \<Rightarrow> bool" where
  "py_eq (PStr a) (PStr b) = (a = b)"
| "py_eq (PBool a) (PBool b) = (a = b)"
| "py_eq (PInt a) (PInt b) = (a = b)"
| "py_eq (PBool a) (PInt b) = ((if a then 1 else 0) = b)"
| "py_eq (PInt a) (PBool b) = (a = (if b then 1 else 0))"
| "py_eq _ _ = False"

text \<open>\<open>conditions\<close> is the rule's dictionary, as its items in insertion order.\<close>

record RoutingRule =
  rule_id :: string
  rule_name :: string
  conditions :: "(string \<times> pyval) list"
  action :: RoutingDecision
  priority :: int
  target_skill_level :: "AgentSkillLevel option"
  target_specialization :: "string option"

text \<open>The keys the engine reads from the \<open>metadata\<close> and \<open>summary\<close> dictionaries of a
  request; \<open>None\<close> is an absent key.\<close>

record call_metadata =
  md_priority :: "pyval option"
  md_language :: "string option"
  md_customer_phone :: "string option"

record call_summary =
  topics :: "string list"
  action_items :: "string list"
  customer_issues :: "string list"
  sentiment :: "pyval option"
  resolution_confidence :: "rat option"

text \<open>The wall clock read by a call: local weekday (Monday is 0) and hour for
  \<^verbatim>\<open>datetime.now()\<close>, microseconds since the epoch for \<^verbatim>\<open>datetime.utcnow()\<close>.\<close>

record clock =
  weekday :: nat
  hour :: nat
  utcnow :: int

type_synonym call_id = "string option"

record route =
  r_decision :: RoutingDecision
  r_target :: "string option"
  r_timestamp :: int

record queue_item =
  q_call_id :: call_id
  q_metadata :: call_metadata
  q_rule :: RoutingRule
  queued_at :: int

text \<open>The messages handed to \<^verbatim>\<open>send_message\<close>, by their \<open>action\<close>.\<close>

datatype routing_message =
    SentAutoResolve call_id
  | SentTransfer call_id string
  | SentEscalate call_id string
  | SentCallback call_id
  | SentEndCall call_id
  | SentError

text \<open>\<open>available_agents\<close> is the dictionary of profiles keyed by \<open>agent_id\<close>, as its
  values in insertion order.\<close>

record RoutingAgent =
  available_agents :: "AgentProfile list"
  routing_rules :: "RoutingRule list"
  active_routes :: "call_id \<rightharpoonup> route"
  queue :: "queue_item list"
  routing_history :: "(call_id \<times> RoutingDecision \<times> string option) list"
  sent_messages :: "routing_message list"
  auto_resolve_threshold :: rat
  escalation_threshold :: rat
  max_queue_time :: rat

record routing_request =
  req_call_id :: call_id
  req_metadata :: call_metadata
  req_summary :: call_summary
  req_quality_score :: "rat option"

subsection \<open>Call attributes\<close>

text \<open>\<^verbatim>\<open>str.lower\<close> on ASCII text.\<close>

definition lower_char :: "char \<Rightarrow> char" where
  "lower_char c =
     (let n = (of_char c :: nat) in if 65 \<le> n \<and> n \<le> 90 then char_of (n + 32) else c)"

definition category_keywords :: "(string \<times> string list) list" where
  "category_keywords =
     [(''technical'', [''technical'', ''error'', ''bug'', ''crash'', ''not working'']),
      (''billing'', [''billing'', ''payment'', ''invoice'', ''charge'', ''refund'']),
      (''general'', [''information'', ''question'', ''help'', ''support''])]"

text \<open>\<^verbatim>\<open>RoutingAgent._determine_category\<close>.\<close>

definition determine_category :: "call_summary \<Rightarrow> string" where
  "determine_category summary =
     (case find (\<lambda>(category, keywords).
                   list_ex (\<lambda>topic. list_ex (\<lambda>keyword. sublist keyword (map lower_char topic))
                                      keywords)
                           (topics summary))
                category_keywords of
        Some (category, keywords) \<Rightarrow> category
      | None \<Rightarrow> ''general'')"

text \<open>\<^verbatim>\<open>RoutingAgent._assess_complexity\<close>.\<close>

definition assess_complexity :: "call_summary \<Rightarrow> string" where
  "assess_complexity summary =
     (if length (action_items summary) > 3 \<or> length (customer_issues summary) > 2
      then ''high''
      else if length (action_items summary) > 1 \<or> length (customer_issues summary) > 0
      then ''medium''
      else ''low'')"

text \<open>\<^verbatim>\<open>RoutingAgent._is_business_hours\<close>.\<close>

definition is_business_hours :: "clock \<Rightarrow> bool" where
  "is_business_hours c = (weekday c < 5 \<and> 9 \<le> hour c \<and> hour c < 18)"

text \<open>The dictionary of factors that \<^verbatim>\<open>_make_routing_decision\<close> builds for
  \<^verbatim>\<open>_check_rule_conditions\<close>.\<close>

definition routing_factors :: "clock \<Rightarrow> call_metadata \<Rightarrow> call_summary \<Rightarrow> string \<rightharpoonup> pyval" where
  "routing_factors c metadata summary =
     map_of
       [(''priority'', case md_priority metadata of None \<Rightarrow> PStr ''normal'' | Some v \<Rightarrow> v),
        (''category'', PStr (determine_category summary)),
        (''complexity'', PStr (assess_complexity summary)),
        (''sentiment'', case sentiment summary of None \<Rightarrow> PStr ''neutral'' | Some v \<Rightarrow> v),
        (''business_hours'', PBool (is_business_hours c))]"

text \<open>The loop of \<^verbatim>\<open>RoutingAgent._check_rule_conditions\<close>.\<close>

fun conditions_hold :: "(string \<times> pyval) list \<Rightarrow> (string \<rightharpoonup> pyval) \<Rightarrow> bool" where
  "conditions_hold [] factors = True"
| "conditions_hold ((key, expected_value) # rest) factors =
     (if (case factors key of None \<Rightarrow> False | Some v \<Rightarrow> \<not> py_eq v expected_value)
      then False
      else conditions_hold rest factors)"

definition check_rule_conditions :: "RoutingRule \<Rightarrow> (string \<rightharpoonup> pyval) \<Rightarrow> bool" where
  "check_rule_conditions rule factors = conditions_hold (conditions rule) factors"

subsection \<open>Searching the pool\<close>

text \<open>The four checks of the loop body of \<^verbatim>\<open>_find_best_agent\<close>; an empty
  specialization string is falsy and skips its check.\<close>

definition candidate_ok ::
  "AgentSkillLevel option \<Rightarrow> string option \<Rightarrow> string \<Rightarrow> AgentProfile \<Rightarrow> bool" where
  "candidate_ok skill specialization language a =
     (is_available a
      \<and> (case skill of None \<Rightarrow> True | Some sk \<Rightarrow> skill_level a = sk)
      \<and> (case specialization of
           None \<Rightarrow> True
         | Some sp \<Rightarrow> sp = [] \<or> sp \<in> set (specializations a))
      \<and> language \<in> set (languages a))"

text \<open>
  \<^verbatim>\<open>RoutingAgent._find_best_agent\<close>.  \<^verbatim>\<open>list.sort(key=..., reverse=True)\<close> is the
  stable ascending sort of the reversed list, reversed again; the key is the pair
  (score, negated load percentage), compared lexicographically.
\<close>

definition find_best_agent ::
  "AgentProfile list \<Rightarrow> AgentSkillLevel option \<Rightarrow> string option \<Rightarrow> string \<Rightarrow> string option" where
  "find_best_agent pool skill specialization language =
     (let candidates = filter (candidate_ok skill specialization language) pool
      in if candidates = [] then None
         else case rev (sort_key (\<lambda>a. (performance_score a, - load_percentage a))
                          (rev candidates)) of
                [] \<Rightarrow> None
              | a # rest \<Rightarrow> Some (agent_id a))"

text \<open>\<^verbatim>\<open>RoutingAgent._find_supervisor\<close>.\<close>

definition find_supervisor :: "AgentProfile list \<Rightarrow> string option" where
  "find_supervisor pool =
     (case filter (\<lambda>a. skill_level a = SUPERVISOR \<and> is_available a) pool of
        [] \<Rightarrow> None
      | a # rest \<Rightarrow> Some (agent_id a))"

text \<open>The truth value of an optional agent id in \<^verbatim>\<open>if target:\<close>: \<open>None\<close> and the empty
  string are falsy.\<close>

fun truthy :: "string option \<Rightarrow> bool" where
  "truthy None = False"
| "truthy (Some t) = (t \<noteq> [])"

subsection \<open>Deciding\<close>

definition send_message :: "routing_message \<Rightarrow> RoutingAgent \<Rightarrow> RoutingAgent" where
  "send_message m s = s\<lparr>sent_messages := sent_messages s @ [m]\<rparr>"

definition language_of :: "call_metadata \<Rightarrow> string" where
  "language_of metadata = (case md_language metadata of None \<Rightarrow> ''en'' | Some l \<Rightarrow> l)"

text \<open>\<^verbatim>\<open>RoutingAgent._add_to_queue\<close>.\<close>

definition add_to_queue ::
  "clock \<Rightarrow> call_id \<Rightarrow> call_metadata \<Rightarrow> RoutingRule \<Rightarrow> RoutingAgent \<Rightarrow> RoutingAgent" where
  "add_to_queue c cid metadata rule s =
     s\<lparr>queue := queue s @
          [\<lparr>q_call_id = cid, q_metadata = metadata, q_rule = rule, queued_at = utcnow c\<rparr>]\<rparr>"

text \<open>
  The \<^verbatim>\<open>for rule in sorted(...)\<close> loop of \<^verbatim>\<open>_make_routing_decision\<close>, over the rules
  still to visit: \<open>Some\<close> is a \<^verbatim>\<open>return\<close> from inside the loop, \<open>None\<close> is the loop
  running to its end.  The clock is taken not to move during one decision.
\<close>

fun rules_loop ::
  "RoutingRule list \<Rightarrow> (string \<rightharpoonup> pyval) \<Rightarrow> clock \<Rightarrow> call_id \<Rightarrow> call_metadata \<Rightarrow>
   RoutingAgent \<Rightarrow> ((RoutingDecision \<times> string option) \<times> RoutingAgent) option" where
  "rules_loop [] factors c cid metadata s = None"
| "rules_loop (rule # rest) factors c cid metadata s =
     (if check_rule_conditions rule factors
      then (if action rule = AGENT_TRANSFER
            then (let target = find_best_agent (available_agents s) (target_skill_level rule)
                                 (target_specialization rule) (language_of metadata)
                  in if \<not> truthy target
                     then Some ((CALLBACK, None), add_to_queue c cid metadata rule s)
                     else Some ((action rule, target), s))
            else Some ((action rule, None), s))
      else rules_loop rest factors c cid metadata s)"

text \<open>\<^verbatim>\<open>RoutingAgent._make_routing_decision\<close>.  A quality score of zero is falsy.\<close>

definition make_routing_decision ::
  "clock \<Rightarrow> call_id \<Rightarrow> call_metadata \<Rightarrow> call_summary \<Rightarrow> rat option \<Rightarrow> RoutingAgent \<Rightarrow>
   (RoutingDecision \<times> string option) \<times> RoutingAgent" where
  "make_routing_decision c cid metadata summary quality_score s =
     (let category = determine_category summary;
          conf = (case resolution_confidence summary of None \<Rightarrow> 1 / 2 | Some x \<Rightarrow> x)
      in case rules_loop (sort_key priority (routing_rules s))
                (routing_factors c metadata summary) c cid metadata s of
           Some r \<Rightarrow> r
         | None \<Rightarrow>
             (if conf \<ge> auto_resolve_threshold s then ((AUTO_RESOLVE, None), s)
              else if (case quality_score of
                         None \<Rightarrow> False
                       | Some q \<Rightarrow> q \<noteq> 0 \<and> q < escalation_threshold s)
              then ((ESCALATE, find_supervisor (available_agents s)), s)
              else ((AGENT_TRANSFER,
                     find_best_agent (available_agents s) None (Some category)
                       (language_of metadata)), s)))"

text \<open>
  The rule the specification's step 1 selects: the first rule, in ascending priority
  (ties in list order), that \<^verbatim>\<open>_check_rule_conditions\<close> accepts.
\<close>

definition first_matching_rule :: "RoutingRule list \<Rightarrow> (string \<rightharpoonup> pyval) \<Rightarrow> RoutingRule option" where
  "first_matching_rule rules factors =
     find (\<lambda>r. check_rule_conditions r factors) (sort_key priority rules)"

text \<open>
  A rule matching as the specification words it: every declared condition key has a
  corresponding attribute, whose value equals the expected one.
\<close>

definition spec_rule_matches :: "RoutingRule \<Rightarrow> (string \<rightharpoonup> pyval) \<Rightarrow> bool" where
  "spec_rule_matches rule factors =
     list_all (\<lambda>(key, expected_value).
                 case factors key of None \<Rightarrow> False | Some v \<Rightarrow> py_eq v expected_value)
              (conditions rule)"

definition spec_first_rule :: "RoutingRule list \<Rightarrow> (string \<rightharpoonup> pyval) \<Rightarrow> RoutingRule option" where
  "spec_first_rule rules factors =
     find (\<lambda>r. spec_rule_matches r factors) (sort_key priority rules)"

subsection \<open>Executing\<close>

text \<open>\<^verbatim>\<open>self.available_agents[agent_id]\<close>.\<close>

definition pool_lookup :: "AgentProfile list \<Rightarrow> string \<Rightarrow> error + AgentProfile" where
  "pool_lookup pool t =
     (case find (\<lambda>a. agent_id a = t) pool of None \<Rightarrow> Inl KeyError | Some a \<Rightarrow> Inr a)"

text \<open>\<^verbatim>\<open>self.available_agents[target].current_load += 1\<close>.\<close>

definition bump_load :: "string \<Rightarrow> AgentProfile list \<Rightarrow> AgentProfile list" where
  "bump_load t pool =
     map (\<lambda>a. if agent_id a = t then a\<lparr>current_load := current_load a + 1\<rparr> else a) pool"

text \<open>\<^verbatim>\<open>RoutingAgent._transfer_to_agent\<close> and \<^verbatim>\<open>_escalate_to_supervisor\<close>.\<close>

definition transfer_to_agent :: "call_id \<Rightarrow> string \<Rightarrow> RoutingAgent \<Rightarrow> (error + unit) \<times> RoutingAgent" where
  "transfer_to_agent cid t s =
     (case pool_lookup (available_agents s) t of
        Inl e \<Rightarrow> (Inl e, s)
      | Inr a \<Rightarrow> (Inr (), send_message (SentTransfer cid t) s))"

definition escalate_to_supervisor ::
  "call_id \<Rightarrow> string \<Rightarrow> RoutingAgent \<Rightarrow> (error + unit) \<times> RoutingAgent" where
  "escalate_to_supervisor cid t s =
     (case pool_lookup (available_agents s) t of
        Inl e \<Rightarrow> (Inl e, s)
      | Inr a \<Rightarrow> (Inr (), send_message (SentEscalate cid t) s))"

text \<open>\<^verbatim>\<open>RoutingAgent._schedule_callback\<close>.\<close>

definition schedule_callback :: "call_id \<Rightarrow> RoutingAgent \<Rightarrow> RoutingAgent" where
  "schedule_callback cid s = send_message (SentCallback cid) s"

text \<open>\<^verbatim>\<open>RoutingAgent._execute_routing\<close>.\<close>

definition execute_routing ::
  "clock \<Rightarrow> call_id \<Rightarrow> RoutingDecision \<Rightarrow> string option \<Rightarrow> RoutingAgent \<Rightarrow>
   (error + unit) \<times> RoutingAgent" where
  "execute_routing c cid decision target s =
     (let s1 = s\<lparr>active_routes := (active_routes s)
                  (cid \<mapsto> \<lparr>r_decision = decision, r_target = target, r_timestamp = utcnow c\<rparr>)\<rparr>
      in case decision of
           AUTO_RESOLVE \<Rightarrow> (Inr (), send_message (SentAutoResolve cid) s1)
         | AGENT_TRANSFER \<Rightarrow>
             (case target of
                None \<Rightarrow> (Inr (), s1)
              | Some t \<Rightarrow>
                  if t = [] then (Inr (), s1)
                  else (case transfer_to_agent cid t s1 of
                          (Inl e, s2) \<Rightarrow> (Inl e, s2)
                        | (Inr u, s2) \<Rightarrow>
                            (Inr (), s2\<lparr>available_agents := bump_load t (available_agents s2)\<rparr>)))
         | ESCALATE \<Rightarrow>
             (case target of
                None \<Rightarrow> (Inr (), s1)
              | Some t \<Rightarrow>
                  if t = [] then (Inr (), s1)
                  else (case escalate_to_supervisor cid t s1 of
                          (Inl e, s2) \<Rightarrow> (Inl e, s2)
                        | (Inr u, s2) \<Rightarrow>
                            (Inr (), s2\<lparr>available_agents := bump_load t (available_agents s2)\<rparr>)))
         | CALLBACK \<Rightarrow> (Inr (), schedule_callback cid s1)
         | END_CALL \<Rightarrow> (Inr (), send_message (SentEndCall cid) s1))"

text \<open>\<^verbatim>\<open>RoutingAgent._handle_routing_request\<close>: decide, execute, record; an exception
  is answered by an error message.\<close>

definition handle_routing_request :: "clock \<Rightarrow> routing_request \<Rightarrow> RoutingAgent \<Rightarrow> RoutingAgent" where
  "handle_routing_request c req s =
     (case make_routing_decision c (req_call_id req) (req_metadata req) (req_summary req)
             (req_quality_score req) s of
        ((decision, target), s1) \<Rightarrow>
          (case execute_routing c (req_call_id req) decision target s1 of
             (Inl e, s2) \<Rightarrow> send_message SentError s2
           | (Inr u, s2) \<Rightarrow>
               s2\<lparr>routing_history := routing_history s2 @ [(req_call_id req, decision, target)]\<rparr>))"

subsection \<open>The wait-queue sweep\<close>

text \<open>\<^verbatim>\<open>list.pop(i)\<close> for a natural index.\<close>

definition list_pop :: "nat \<Rightarrow> 'a list \<Rightarrow> error + 'a list" where
  "list_pop i xs = (if i < length xs then Inr (take i xs @ drop (Suc i) xs) else Inl IndexError)"

fun pop_all :: "nat list \<Rightarrow> 'a list \<Rightarrow> error + 'a list" where
  "pop_all [] q = Inr q"
| "pop_all (i # rest) q = (case list_pop i q of Inl e \<Rightarrow> Inl e | Inr q1 \<Rightarrow> pop_all rest q1)"

text \<open>The seconds an item has waited at time \<open>now\<close>.\<close>

definition queue_time :: "int \<Rightarrow> queue_item \<Rightarrow> rat" where
  "queue_time now item = of_int (now - queued_at item) / 1000000"

text \<open>The worker \<^verbatim>\<open>_process_queue\<close> looks for, for one queued item.\<close>

definition queue_target :: "AgentProfile list \<Rightarrow> queue_item \<Rightarrow> string option" where
  "queue_target pool item =
     find_best_agent pool (target_skill_level (q_rule item))
       (target_specialization (q_rule item)) (language_of (q_metadata item))"

text \<open>
  The \<^verbatim>\<open>for i, item in enumerate(self.queue)\<close> loop of \<^verbatim>\<open>_process_queue\<close>, from index
  \<open>i\<close> on, with the list \<open>processed\<close> built so far.
\<close>

fun sweep_loop ::
  "nat \<Rightarrow> queue_item list \<Rightarrow> int \<Rightarrow> nat list \<Rightarrow> RoutingAgent \<Rightarrow>
   (error + nat list) \<times> RoutingAgent" where
  "sweep_loop i [] now processed s = (Inr processed, s)"
| "sweep_loop i (item # rest) now processed s =
     (let target = queue_target (available_agents s) item
      in if truthy target
         then (case transfer_to_agent (q_call_id item) (case target of Some t \<Rightarrow> t | None \<Rightarrow> []) s of
                 (Inl e, s1) \<Rightarrow> (Inl e, s1)
               | (Inr u, s1) \<Rightarrow> sweep_loop (i + 1) rest now (processed @ [i]) s1)
         else if queue_time now item > max_queue_time s
         then sweep_loop (i + 1) rest now (processed @ [i]) (schedule_callback (q_call_id item) s)
         else sweep_loop (i + 1) rest now processed s)"

text \<open>\<^verbatim>\<open>RoutingAgent._process_queue\<close>, run at time \<open>now\<close>.\<close>

definition process_queue :: "int \<Rightarrow> RoutingAgent \<Rightarrow> (error + unit) \<times> RoutingAgent" where
  "process_queue now s =
     (case sweep_loop 0 (queue s) now [] s of
        (Inl e, s1) \<Rightarrow> (Inl e, s1)
      | (Inr processed, s1) \<Rightarrow>
          (case pop_all (rev processed) (queue s1) of
             Inl e \<Rightarrow> (Inl e, s1)
           | Inr q \<Rightarrow> (Inr (), s1\<lparr>queue := q\<rparr>)))"

text \<open>What the engine does over time: it handles a routing request, or its periodic task
  sweeps the queue (an exception of the sweep is caught by \<^verbatim>\<open>_monitor_queue\<close>).\<close>

datatype engine_call = Route clock routing_request | Sweep int

fun engine_step :: "engine_call \<Rightarrow> RoutingAgent \<Rightarrow> RoutingAgent" where
  "engine_step (Route c req) s = handle_routing_request c req s"
| "engine_step (Sweep now) s = snd (process_queue now s)"

fun engine_run :: "engine_call list \<Rightarrow> RoutingAgent \<Rightarrow> RoutingAgent" where
  "engine_run [] s = s"
| "engine_run (x # xs) s = engine_run xs (engine_step x s)"

text \<open>The invariant on the pool: no profile holds more calls than its capacity.\<close>

definition within_capacity :: "AgentProfile list \<Rightarrow> bool" where
  "within_capacity pool = list_all (\<lambda>a. current_load a \<le> max_capacity a) pool"

subsection \<open>The built-in rules and pool\<close>

text \<open>\<^verbatim>\<open>RoutingAgent._load_routing_rules\<close>.\<close>

definition load_routing_rules :: "RoutingRule list" where
  "load_routing_rules =
     [\<lparr>rule_id = ''R001'', rule_name = ''High Priority Escalation'',
       conditions = [(''priority'', PStr ''urgent''), (''sentiment'', PStr ''negative'')],
       action = ESCALATE, priority = 1,
       target_skill_level = Some SUPERVISOR, target_specialization = None\<rparr>,
      \<lparr>rule_id = ''R002'', rule_name = ''Technical Issues'',
       conditions = [(''category'', PStr ''technical''), (''complexity'', PStr ''high'')],
       action = AGENT_TRANSFER, priority = 2,
       target_skill_level = Some SPECIALIST, target_specialization = Some ''technical_support''\<rparr>,
      \<lparr>rule_id = ''R003'', rule_name = ''Billing Inquiries'',
       conditions = [(''category'', PStr ''billing'')],
       action = AGENT_TRANSFER, priority = 3,
       target_skill_level = None, target_specialization = Some ''billing''\<rparr>,
      \<lparr>rule_id = ''R004'', rule_name = ''Simple FAQ'',
       conditions = [(''complexity'', PStr ''low''), (''category'', PStr ''general'')],
       action = AUTO_RESOLVE, priority = 4,
       target_skill_level = None, target_specialization = None\<rparr>,
      \<lparr>rule_id = ''R005'', rule_name = ''After Hours'',
       conditions = [(''business_hours'', PBool False)],
       action = CALLBACK, priority = 5,
       target_skill_level = None, target_specialization = None\<rparr>]"

text \<open>The pool that \<^verbatim>\<open>RoutingAgent._initialize_agent_pool\<close> builds.\<close>

definition initialize_agent_pool :: "AgentProfile list" where
  "initialize_agent_pool =
     [\<lparr>agent_id = ''AGT001'', name = ''Senior Agent 1'', skill_level = SENIOR,
       specializations = [''technical_support'', ''billing''],
       current_load = 2, max_capacity = 5, availability = True,
       performance_score = 92 / 100, languages = [''en'', ''es'']\<rparr>,
      \<lparr>agent_id = ''AGT002'', name = ''Specialist Agent 1'', skill_level = SPECIALIST,
       specializations = [''technical_support''],
       current_load = 3, max_capacity = 4, availability = True,
       performance_score = 88 / 100, languages = [''en'']\<rparr>,
      \<lparr>agent_id = ''AGT003'', name = ''Junior Agent 1'', skill_level = JUNIOR,
       specializations = [''general'', ''billing''],
       current_load = 1, max_capacity = 6, availability = True,
       performance_score = 75 / 100, languages = [''en'', ''fr'']\<rparr>,
      \<lparr>agent_id = ''SUP001'', name = ''Supervisor 1'', skill_level = SUPERVISOR,
       specializations = [''all''],
       current_load = 0, max_capacity = 3, availability = True,
       performance_score = 95 / 100, languages = [''en'', ''es'', ''fr'']\<rparr>]"

text \<open>A routing agent after \<^verbatim>\<open>__init__\<close> with an empty \<open>custom_config\<close> and
  \<^verbatim>\<open>_initialize\<close>.\<close>

definition initialized_routing_agent :: RoutingAgent where
  "initialized_routing_agent =
     \<lparr>available_agents = initialize_agent_pool, routing_rules = load_routing_rules,
      active_routes = Map.empty, queue = [], routing_history = [], sent_messages = [],
      auto_resolve_threshold = 8 / 10, escalation_threshold = 3 / 10, max_queue_time = 300\<rparr>"

section \<open>Observations and example states\<close>

text \<open>The invocations the bus's memory broker has made so far.\<close>

definition bus_delivered :: "MessageBus \<Rightarrow> (wrapped_handler \<times> Message) list" where
  "bus_delivered s = (case bus_broker s of Some (Memory b) \<Rightarrow> delivered b | _ \<Rightarrow> [])"


definition example_message :: Message where
  "example_message =
     \<lparr>msg_id = ''m1'', mtype = EnumMember ROUTING, sender = ''intake'',
      recipient = ''routing'', payload = [], reply_to = None\<rparr>"

text \<open>A handler behaviour: every caller's handler returns.\<close>

definition all_return :: "nat \<Rightarrow> Message \<Rightarrow> outcome" where
  "all_return f m = Returned"

text \<open>The memory broker and the bus after the handlers 1 and 2 have subscribed to the
  topic \<open>t\<close> through an initialized memory bus.\<close>

definition example_broker :: "wrapped_handler MemoryBroker" where
  "example_broker =
     MemoryBroker_subscribe ''t'' \<lparr>w_func = 2, w_types = None, w_topic = ''t''\<rparr>
       (MemoryBroker_subscribe ''t'' \<lparr>w_func = 1, w_types = None, w_topic = ''t''\<rparr>
          new_memory_broker)"

definition example_bus :: MessageBus where
  "example_bus =
     snd (Bus_subscribe True ''t'' 2 None
       (snd (Bus_subscribe True ''t'' 1 None (snd (Bus_initialize MEMORY True new_bus)))))"

text \<open>The handlers a topic has (none when the topic is unknown), and what a publish
  returns together with the invocations logged after it.\<close>

definition subscribed :: "'h MemoryBroker \<Rightarrow> string \<Rightarrow> 'h list" where
  "subscribed b topic = (case subscriptions b topic of None \<Rightarrow> [] | Some hs \<Rightarrow> hs)"

definition publish_deliveries ::
  "('h \<Rightarrow> Message \<Rightarrow> 'w \<Rightarrow> (outcome \<times> 'h broker_call list) \<times> 'w) \<Rightarrow> string \<Rightarrow> Message \<Rightarrow>
   'h MemoryBroker \<times> 'w \<Rightarrow> ((error + unit) \<times> ('h \<times> Message) list) option" where
  "publish_deliveries run topic message bw =
     (case MemoryBroker_publish run topic message bw of
        None \<Rightarrow> None
      | Some (r, b1, w1) \<Rightarrow> Some (r, delivered b1))"

text \<open>A broker with the handlers 1 and 2 subscribed, in this order, to the topic \<open>t\<close>.\<close>

definition two_handlers :: "nat MemoryBroker" where
  "two_handlers =
     MemoryBroker_subscribe ''t'' 2 (MemoryBroker_subscribe ''t'' 1 new_memory_broker)"

text \<open>Handler 1 unsubscribes from \<open>t\<close> while it handles a message; every other handler
  just returns.\<close>

definition unsubscribing_run ::
  "nat \<Rightarrow> Message \<Rightarrow> unit \<Rightarrow> (outcome \<times> nat broker_call list) \<times> unit" where
  "unsubscribing_run h message w =
     (if h = 1 then ((Returned, [CallUnsubscribe ''t'' 1]), w) else ((Returned, []), w))"

text \<open>Handler 1 subscribes a handler to another topic and then raises; every other
  handler just returns.\<close>

definition raising_run ::
  "nat \<Rightarrow> Message \<Rightarrow> unit \<Rightarrow> (outcome \<times> nat broker_call list) \<times> unit" where
  "raising_run h message w =
     (if h = 1 then ((Raised ''boom'', [CallSubscribe ''u'' 3]), w) else ((Returned, []), w))"

text \<open>An optional target names an available worker of the pool (or is \<open>None\<close>).\<close>

definition target_available :: "AgentProfile list \<Rightarrow> string option \<Rightarrow> bool" where
  "target_available pool tg =
     (case tg of
        None \<Rightarrow> True
      | Some t \<Rightarrow> \<exists>a\<in>set pool. agent_id a = t \<and> is_available a)"

text \<open>The pool is a dictionary keyed by \<open>agent_id\<close>, so its ids are distinct; with the
  capacity invariant this is what the engine preserves.\<close>

definition pool_ok :: "AgentProfile list \<Rightarrow> bool" where
  "pool_ok pool = (distinct (map agent_id pool) \<and> within_capacity pool)"

text \<open>The indices, counted from \<open>i\<close>, of the list elements that satisfy \<open>P\<close>.\<close>

fun marked :: "('a \<Rightarrow> bool) \<Rightarrow> nat \<Rightarrow> 'a list \<Rightarrow> nat list" where
  "marked P i [] = []"
| "marked P i (x # xs) = (if P x then i # marked P (Suc i) xs else marked P (Suc i) xs)"

text \<open>What one pass of the sweep does with an item: it is processed (transferred or turned
  into a callback) or left waiting, and one message is sent for a processed item.\<close>

definition sweep_done :: "AgentProfile list \<Rightarrow> rat \<Rightarrow> int \<Rightarrow> queue_item \<Rightarrow> bool" where
  "sweep_done pool mq now item = (truthy (queue_target pool item) \<or> queue_time now item > mq)"

definition sweep_message :: "AgentProfile list \<Rightarrow> queue_item \<Rightarrow> routing_message" where
  "sweep_message pool item =
     (if truthy (queue_target pool item)
      then SentTransfer (q_call_id item) (case queue_target pool item of Some t \<Rightarrow> t | None \<Rightarrow> [])
      else SentCallback (q_call_id item))"

subsection \<open>Example calls and engine states\<close>

text \<open>A Wednesday at 10 o'clock, at time 0.\<close>

definition example_clock :: clock where
  "example_clock = \<lparr>weekday = 2, hour = 10, utcnow = 0\<rparr>"

text \<open>An urgent call with negative sentiment (scenario 1 of the specification).\<close>

definition urgent_negative_request :: routing_request where
  "urgent_negative_request =
     \<lparr>req_call_id = Some ''call-1'',
      req_metadata = \<lparr>md_priority = Some (PStr ''urgent''), md_language = None,
                       md_customer_phone = None\<rparr>,
      req_summary = \<lparr>topics = [], action_items = [], customer_issues = [''late delivery''],
                      sentiment = Some (PStr ''negative''), resolution_confidence = None\<rparr>,
      req_quality_score = None\<rparr>"

text \<open>A call about a crash with four action items: category technical, complexity
  high.\<close>

definition technical_request :: routing_request where
  "technical_request =
     \<lparr>req_call_id = Some ''call-2'',
      req_metadata = \<lparr>md_priority = None, md_language = None, md_customer_phone = None\<rparr>,
      req_summary = \<lparr>topics = [''System Crash''],
                      action_items = [''a'', ''b'', ''c'', ''d''], customer_issues = [],
                      sentiment = None, resolution_confidence = None\<rparr>,
      req_quality_score = None\<rparr>"

text \<open>The initialized engine after one technical call: the only specialist is at its
  capacity.  After a second one: that call waits in the queue.\<close>

definition specialist_busy :: RoutingAgent where
  "specialist_busy = handle_routing_request example_clock technical_request initialized_routing_agent"

definition second_technical_request :: routing_request where
  "second_technical_request = technical_request\<lparr>req_call_id := Some ''call-3''\<rparr>"

definition example_waiting :: RoutingAgent where
  "example_waiting = handle_routing_request example_clock second_technical_request specialist_busy"

text \<open>A call that the built-in rules R001 and R002 both match.\<close>

definition urgent_technical_request :: routing_request where
  "urgent_technical_request =
     \<lparr>req_call_id = Some ''call-4'',
      req_metadata = \<lparr>md_priority = Some (PStr ''urgent''), md_language = None,
                       md_customer_phone = None\<rparr>,
      req_summary = \<lparr>topics = [''System Crash''],
                      action_items = [''a'', ''b'', ''c'', ''d''], customer_issues = [],
                      sentiment = Some (PStr ''negative''), resolution_confidence = None\<rparr>,
      req_quality_score = None\<rparr>"

text \<open>The waiting state after the specialist has been given back its initial load by
  whoever owns the pool: a matching worker has become free.\<close>

definition example_freed :: RoutingAgent where
  "example_freed = example_waiting\<lparr>available_agents := initialize_agent_pool\<rparr>"

text \<open>Two rules, the first with a condition key that is not a call attribute.\<close>

definition vip_rule :: RoutingRule where
  "vip_rule = \<lparr>rule_id = ''V1'', rule_name = ''VIP'', conditions = [(''vip'', PBool True)],
     action = END_CALL, priority = 1, target_skill_level = None, target_specialization = None\<rparr>"

definition catch_all_rule :: RoutingRule where
  "catch_all_rule = \<lparr>rule_id = ''V2'', rule_name = ''Rest'', conditions = [],
     action = AUTO_RESOLVE, priority = 2, target_skill_level = None, target_specialization = None\<rparr>"

definition example_undeclared :: RoutingAgent where
  "example_undeclared = initialized_routing_agent\<lparr>routing_rules := [vip_rule, catch_all_rule]\<rparr>"

section \<open>Event history\<close>

lemma notify_loop_history:
  "event_history (notify_loop fbeh hbeh ls event es) = event_history es \<and>
   max_history (notify_loop fbeh hbeh ls event es) = max_history es"
  by (induction ls arbitrary: es)
     (auto split: option.splits sum.splits bool.splits outcome.splits)

lemma process_event_history:
  "event_history (process_event fbeh hbeh es event) = event_history (add_to_history es event)"
  by (simp add: process_event_def notify_listeners_def notify_loop_history Let_def
           split: option.splits)

lemma process_event_max_history:
  "max_history (process_event fbeh hbeh es event) = max_history es"
  by (simp add: process_event_def notify_listeners_def notify_loop_history add_to_history_def
                Let_def split: option.splits)

text \<open>With a positive bound the trimming works: the history stays within the bound and is
  the newest end of the arrival sequence.\<close>

lemma add_to_history_bounded:
  assumes "0 < max_history es" "int (length (event_history es)) \<le> max_history es"
  shows "int (length (event_history (add_to_history es event))) \<le> max_history es"
    and "event_history (add_to_history es event) =
           drop (length (event_history es) + 1 - nat (max_history es))
                (event_history es @ [event])"
  using assms
  by (auto simp: add_to_history_def py_slice_from_def Let_def max_def min_def
                 nat_diff_distrib nat_add_distrib)

text \<open>
  Claim C9 says that after the event system has processed an event the history holds at
  most \<open>max_history\<close> events.  With \<open>max_history = 0\<close> the trimming slice
  \<^verbatim>\<open>event_history[-0:]\<close> is the whole list: processing an event appends it and evicts
  nothing, so the history is longer than the bound.
\<close>

theorem history_unbounded_when_max_history_zero:
  "event_history (process_event fbeh hbeh (es\<lparr>max_history := 0\<rparr>) event)
     = event_history es @ [event]
   \<and> \<not> int (length (event_history (process_event fbeh hbeh (es\<lparr>max_history := 0\<rparr>) event)))
        \<le> max_history (es\<lparr>max_history := 0\<rparr>)"
  by (simp add: process_event_history add_to_history_def py_slice_from_def Let_def)

section \<open>The in-memory broker delivers to every subscription\<close>

lemma memory_subscribe_appends:
  "subscriptions (MemoryBroker_subscribe topic h b) =
     (subscriptions b)
       (topic \<mapsto> (case subscriptions b topic of None \<Rightarrow> [] | Some hs \<Rightarrow> hs) @ [h])"
  by (auto simp: MemoryBroker_subscribe_def Let_def split: option.splits)

lemma broker_calls_log:
  "delivered (broker_calls cs b) = delivered b \<and> broker_log (broker_calls cs b) = broker_log b"
proof (induction cs arbitrary: b)
  case Nil
  then show ?case by simp
next
  case (Cons c cs)
  then show ?case
    by (cases c)
       (simp_all add: MemoryBroker_subscribe_def MemoryBroker_unsubscribe_def Let_def
                 split: option.splits)
qed

lemma broker_calls_other_topic:
  "list_all (\<lambda>c. call_topic c \<noteq> topic) cs \<Longrightarrow>
   subscriptions (broker_calls cs b) topic = subscriptions b topic"
proof (induction cs arbitrary: b)
  case Nil
  then show ?case by simp
next
  case (Cons c cs)
  then show ?case
    by (cases c)
       (auto simp: MemoryBroker_subscribe_def MemoryBroker_unsubscribe_def Let_def
             split: option.splits)
qed

lemma fanout_untouched:
  assumes "subscriptions b topic = Some hs"
      and "\<forall>h\<in>set hs. \<forall>w. list_all (\<lambda>c. call_topic c \<noteq> topic) (snd (fst (run h message w)))"
      and "i \<le> length hs"
  shows "\<exists>b1 w1. memory_fanout run topic message i (b, w) = Some (b1, w1)
           \<and> delivered b1 = delivered b @ map (\<lambda>h. (h, message)) (drop i hs)
           \<and> subscriptions b1 topic = Some hs"
  using assms(1,3)
proof (induction "length hs - i" arbitrary: i b w)
  case 0
  then have "i = length hs" by simp
  then show ?case using "0.prems"(1) by (subst memory_fanout.simps) simp
next
  case (Suc n)
  then have lt: "i < length hs" by simp
  obtain out calls w1 where r: "run (hs ! i) message w = ((out, calls), w1)"
    by (metis surj_pair)
  let ?b1 = "b\<lparr>delivered := delivered b @ [(hs ! i, message)]\<rparr>"
  let ?b2 = "broker_calls calls ?b1"
  let ?b3 = "case out of Returned \<Rightarrow> ?b2 | Raised m \<Rightarrow> ?b2\<lparr>broker_log := broker_log ?b2 @ [m]\<rparr>"
  have "hs ! i \<in> set hs" using lt by simp
  then have q: "list_all (\<lambda>c. call_topic c \<noteq> topic) calls"
    using assms(2) r by (metis fst_conv snd_conv)
  have s2: "subscriptions ?b2 topic = Some hs"
    using broker_calls_other_topic[OF q, of ?b1] Suc.prems(1) by simp
  have d2: "delivered ?b2 = delivered b @ [(hs ! i, message)]"
    using broker_calls_log[of calls ?b1] by simp
  have s3: "subscriptions ?b3 topic = Some hs" using s2 by (cases out) simp_all
  have d3: "delivered ?b3 = delivered b @ [(hs ! i, message)]" using d2 by (cases out) simp_all
  have step: "memory_fanout run topic message i (b, w)
                = memory_fanout run topic message (Suc i) (?b3, w1)"
    using lt r Suc.prems(1)
    by (subst memory_fanout.simps) (cases out; simp add: Let_def)
  have "n = length hs - Suc i" using Suc.hyps(2) by simp
  from Suc.hyps(1)[OF this s3, of w1] lt
  obtain b4 w4 where
    f: "memory_fanout run topic message (Suc i) (?b3, w1) = Some (b4, w4)"
    and d4: "delivered b4 = delivered ?b3 @ map (\<lambda>h. (h, message)) (drop (Suc i) hs)"
    and s4: "subscriptions b4 topic = Some hs"
    by auto
  have "drop i hs = hs ! i # drop (Suc i) hs" using lt by (simp add: Cons_nth_drop_Suc)
  then have "delivered b4 = delivered b @ map (\<lambda>h. (h, message)) (drop i hs)"
    using d4 d3 by simp
  then show ?case using step f s4 by simp
qed

text \<open>
  Claim C8, amended: when no handler of the topic subscribes or unsubscribes on that
  topic while it handles the message (calls on other topics are free), a publish through
  the in-memory broker returns, and returns normally; it has invoked every handler
  subscribed to the topic, once per subscription and with the published message, in the
  order of subscription, whether the handlers returned or raised; and the topic's
  subscriptions are as before.
\<close>

theorem memory_publish_delivers_when_list_untouched:
  assumes "\<forall>h\<in>set (subscribed b topic).
             \<forall>w. list_all (\<lambda>c. call_topic c \<noteq> topic) (snd (fst (run h message w)))"
  shows "\<exists>b1 w1. MemoryBroker_publish run topic message (b, w) = Some (Inr (), b1, w1)
           \<and> delivered b1 = delivered b @ map (\<lambda>h. (h, message)) (subscribed b topic)
           \<and> subscribed b1 topic = subscribed b topic"
proof (cases "subscriptions b topic")
  case None
  then show ?thesis by (simp add: MemoryBroker_publish_def subscribed_def)
next
  case (Some hs)
  have q: "\<forall>h\<in>set hs. \<forall>w. list_all (\<lambda>c. call_topic c \<noteq> topic) (snd (fst (run h message w)))"
    using assms Some by (simp add: subscribed_def)
  from fanout_untouched[of b topic hs run message 0 w, OF Some q]
  obtain b1 w1 where "memory_fanout run topic message 0 (b, w) = Some (b1, w1)"
    and "delivered b1 = delivered b @ map (\<lambda>h. (h, message)) hs"
    and "subscriptions b1 topic = Some hs"
    by auto
  then show ?thesis using Some by (simp add: MemoryBroker_publish_def subscribed_def)
qed

text \<open>Claim C8, amended, on the broker with handlers 1 and 2: handler 1 subscribes on
  another topic and raises; the publish returns normally and both handlers have been
  invoked, in order.\<close>

theorem memory_publish_delivers_when_list_untouched_witness:
  "subscribed two_handlers ''t'' = [1, 2]
   \<and> publish_deliveries raising_run ''t'' example_message (two_handlers, ())
       = Some (Inr (), [(1, example_message), (2, example_message)])"
proof -
  have s: "subscribed two_handlers ''t'' = [1, 2]"
    by (simp add: subscribed_def two_handlers_def MemoryBroker_subscribe_def
                  new_memory_broker_def Let_def)
  have d: "delivered two_handlers = []"
    by (simp add: two_handlers_def MemoryBroker_subscribe_def new_memory_broker_def Let_def)
  have q: "\<forall>h\<in>set (subscribed two_handlers ''t'').
             \<forall>w. list_all (\<lambda>c. call_topic c \<noteq> ''t'') (snd (fst (raising_run h example_message w)))"
    by (simp add: s raising_run_def)
  from memory_publish_delivers_when_list_untouched[of two_handlers "''t''" raising_run
         example_message "()", OF q]
  show ?thesis using s d by (auto simp: publish_deliveries_def)
qed

text \<open>
  Claim C8 as stated fails: handlers 1 and 2 are subscribed to the topic before the
  publish; handler 1 unsubscribes from the topic while it handles the message, which
  clears the list the loop is reading, and handler 2 is never invoked.
\<close>

theorem unsubscribe_during_delivery_counterexample:
  "subscribed two_handlers ''t'' = [1, 2]
   \<and> publish_deliveries unsubscribing_run ''t'' example_message (two_handlers, ())
       = Some (Inr (), [(1, example_message)])"
proof -
  have sub0: "subscriptions two_handlers ''t'' = Some [1, 2]"
    by (simp add: two_handlers_def MemoryBroker_subscribe_def new_memory_broker_def Let_def)
  have del0: "delivered two_handlers = []"
    by (simp add: two_handlers_def MemoryBroker_subscribe_def new_memory_broker_def Let_def)
  define b1 where
    "b1 = broker_calls [CallUnsubscribe ''t'' 1]
            (two_handlers\<lparr>delivered := delivered two_handlers @ [(1, example_message)]\<rparr>)"
  have sub1: "subscriptions b1 ''t'' = Some []"
    by (simp add: b1_def sub0 MemoryBroker_unsubscribe_def)
  have del1: "delivered b1 = [(1, example_message)]"
    by (simp add: b1_def del0 sub0 MemoryBroker_unsubscribe_def)
  have step1: "memory_fanout unsubscribing_run ''t'' example_message 0 (two_handlers, ())
                 = memory_fanout unsubscribing_run ''t'' example_message (Suc 0) (b1, ())"
    by (subst memory_fanout.simps) (simp add: sub0 unsubscribing_run_def b1_def Let_def)
  have step2: "memory_fanout unsubscribing_run ''t'' example_message (Suc 0) (b1, ())
                 = Some (b1, ())"
    by (subst memory_fanout.simps) (simp add: sub1)
  show ?thesis
    by (simp add: publish_deliveries_def MemoryBroker_publish_def subscribed_def sub0
                  step1 step2 del1)
qed

text \<open>For handlers that make no broker call, the loop is the plain recursion over the
  topic's list that the bus model uses.\<close>

lemma quiet_fanout_subscriptions:
  "subscriptions (fst (quiet_fanout run hs message (b, w))) = subscriptions b"
  by (induction hs arbitrary: b w) (auto simp: Let_def split: prod.splits outcome.splits)

lemma memory_fanout_quiet:
  assumes "subscriptions b topic = Some hs" "i \<le> length hs"
  shows "memory_fanout (no_calls run) topic message i (b, w)
           = Some (quiet_fanout run (drop i hs) message (b, w))"
  using assms
proof (induction "length hs - i" arbitrary: i b w)
  case 0
  then have "i = length hs" by simp
  then show ?case using "0.prems"(1) by (subst memory_fanout.simps) simp
next
  case (Suc n)
  then have lt: "i < length hs" by simp
  obtain out w1 where r: "run (hs ! i) message w = (out, w1)" by (metis surj_pair)
  let ?b1 = "b\<lparr>delivered := delivered b @ [(hs ! i, message)]\<rparr>"
  let ?b3 = "case out of Returned \<Rightarrow> ?b1 | Raised m \<Rightarrow> ?b1\<lparr>broker_log := broker_log ?b1 @ [m]\<rparr>"
  have s3: "subscriptions ?b3 topic = Some hs" using Suc.prems(1) by (cases out) simp_all
  have step: "memory_fanout (no_calls run) topic message i (b, w)
                = memory_fanout (no_calls run) topic message (Suc i) (?b3, w1)"
    using lt r Suc.prems(1)
    by (subst memory_fanout.simps) (cases out; simp add: Let_def no_calls_def)
  have n: "n = length hs - Suc i" using Suc.hyps(2) by simp
  have ih: "memory_fanout (no_calls run) topic message (Suc i) (?b3, w1)
              = Some (quiet_fanout run (drop (Suc i) hs) message (?b3, w1))"
    using Suc.hyps(1)[OF n s3] lt by simp
  have dr: "drop i hs = hs ! i # drop (Suc i) hs" using lt by (simp add: Cons_nth_drop_Suc)
  have "quiet_fanout run (drop i hs) message (b, w)
          = quiet_fanout run (drop (Suc i) hs) message (?b3, w1)"
    using r by (cases out) (simp_all add: dr Let_def)
  then show ?case using step ih by simp
qed

lemma MemoryBroker_publish_quiet_eq:
  "MemoryBroker_publish (no_calls run) topic message (b, w)
     = Some (MemoryBroker_publish_quiet run topic message (b, w))"
proof (cases "subscriptions b topic")
  case None
  then show ?thesis by (simp add: MemoryBroker_publish_def MemoryBroker_publish_quiet_def)
next
  case (Some hs)
  then show ?thesis
    using memory_fanout_quiet[OF Some, of 0 run message w]
    by (simp add: MemoryBroker_publish_def MemoryBroker_publish_quiet_def)
qed

section \<open>The bus counts failed publishes\<close>

lemma wrapped_run_frame:
  "messages_sent (snd (wrapped_run beh wh m s)) = messages_sent s
   \<and> is_connected (snd (wrapped_run beh wh m s)) = is_connected s
   \<and> message_history (snd (wrapped_run beh wh m s)) = message_history s"
  by (simp add: wrapped_run_def Let_def split: option.splits outcome.splits)

lemma fanout_bus_frame:
  "messages_sent (snd (quiet_fanout (wrapped_run beh) hs m (b, s))) = messages_sent s
   \<and> is_connected (snd (quiet_fanout (wrapped_run beh) hs m (b, s))) = is_connected s
   \<and> message_history (snd (quiet_fanout (wrapped_run beh) hs m (b, s))) = message_history s"
proof (induction hs arbitrary: b s)
  case Nil
  then show ?case by simp
next
  case (Cons h hs)
  obtain o1 s1 where r: "wrapped_run beh h m s = (o1, s1)"
    by (cases "wrapped_run beh h m s")
  have f: "messages_sent s1 = messages_sent s \<and> is_connected s1 = is_connected s
           \<and> message_history s1 = message_history s"
    using wrapped_run_frame[of beh h m s] r by simp
  show ?case using Cons.IH r f by (cases o1) (simp_all add: Let_def)
qed

lemma broker_publish_failure_frame:
  "fst (broker_publish beh io_ok topic m s) = Inl e \<Longrightarrow>
   snd (broker_publish beh io_ok topic m s) = s"
  by (auto simp: broker_publish_def MemoryBroker_publish_quiet_def
           split: option.splits broker.splits prod.splits if_splits)

lemma broker_publish_sent:
  "messages_sent (snd (broker_publish beh io_ok topic m s)) = messages_sent s"
proof (cases "bus_broker s")
  case None
  then show ?thesis by (simp add: broker_publish_def)
next
  case (Some br)
  show ?thesis
  proof (cases br)
    case (Memory b)
    show ?thesis
    proof (cases "subscriptions b topic")
      case None
      then show ?thesis using Some Memory
        by (simp add: broker_publish_def MemoryBroker_publish_quiet_def)
    next
      case (Some hs)
      have "messages_sent (snd (quiet_fanout (wrapped_run beh) hs m (b, s))) = messages_sent s"
        using fanout_bus_frame by blast
      then show ?thesis using \<open>bus_broker s = Some br\<close> Memory Some
        by (auto simp: broker_publish_def MemoryBroker_publish_quiet_def split: prod.splits)
    qed
  next
    case (Remote c)
    then show ?thesis using Some by (simp add: broker_publish_def)
  qed
qed

text \<open>
  Claim C6: a publish on a bus that is not connected raises a
  \<open>CommunicationException\<close>, adds exactly one to \<open>errors\<close> and changes nothing else, so
  \<open>messages_sent\<close> stays; the same holds whenever the broker's own publish fails; and
  \<open>messages_sent\<close> grows (by one) exactly when the bus is connected and the broker's
  publish has returned.
\<close>

theorem bus_publish_counts_failures:
  "(\<not> is_connected s \<longrightarrow>
      Bus_publish beh io_ok topic m s =
        (Inl (CommunicationException ''Publish failed''), s\<lparr>errors := errors s + 1\<rparr>))
   \<and> (is_connected s \<and> fst (broker_publish beh io_ok topic m s) \<noteq> Inr () \<longrightarrow>
      Bus_publish beh io_ok topic m s =
        (Inl (CommunicationException ''Publish failed''), s\<lparr>errors := errors s + 1\<rparr>))
   \<and> messages_sent (snd (Bus_publish beh io_ok topic m s)) =
       (if is_connected s \<and> fst (broker_publish beh io_ok topic m s) = Inr ()
        then messages_sent s + 1 else messages_sent s)"
proof -
  obtain r s1 where bp: "broker_publish beh io_ok topic m s = (r, s1)"
    by (cases "broker_publish beh io_ok topic m s")
  have sent1: "messages_sent s1 = messages_sent s"
    using broker_publish_sent[of beh io_ok topic m s] bp by simp
  have frame: "r \<noteq> Inr () \<Longrightarrow> s1 = s"
    using broker_publish_failure_frame[of beh io_ok topic m s] bp by (cases r) auto
  show ?thesis
    using bp sent1 frame
    by (cases r; cases "type_value (mtype m)")
       (auto simp: Bus_publish_def publish_failed_def Let_def)
qed

text \<open>Claim C6 on a bus that was never initialized: the publish raises, \<open>errors\<close> goes
  from 0 to 1 and \<open>messages_sent\<close> stays 0.\<close>

theorem bus_publish_counts_failures_witness:
  "\<not> is_connected new_bus
   \<and> fst (Bus_publish all_return True ''agent_routing'' example_message new_bus)
       = Inl (CommunicationException ''Publish failed'')
   \<and> errors (snd (Bus_publish all_return True ''agent_routing'' example_message new_bus)) = 1
   \<and> messages_sent (snd (Bus_publish all_return True ''agent_routing'' example_message new_bus))
       = 0"
  using bus_publish_counts_failures[of new_bus all_return True "''agent_routing''" example_message]
  by (simp add: new_bus_def)

section \<open>Unsubscribing from the in-memory broker\<close>

lemma memory_unsubscribe_clears:
  "subscriptions (MemoryBroker_unsubscribe topic hid b) topic = None
   \<or> subscriptions (MemoryBroker_unsubscribe topic hid b) topic = Some []"
  by (simp add: MemoryBroker_unsubscribe_def split: option.splits)

lemma memory_unsubscribe_delivered:
  "delivered (MemoryBroker_unsubscribe topic hid b) = delivered b"
  by (simp add: MemoryBroker_unsubscribe_def split: option.splits)

lemma untrack_handler_frame:
  "bus_broker (untrack_handler topic hid s) = bus_broker s
   \<and> is_connected (untrack_handler topic hid s) = is_connected s"
  by (simp add: untrack_handler_def split: option.splits)

lemma untrack_handler_registry:
  "handlers (untrack_handler topic hid s) topic
     = map_option (filter (\<lambda>h. handler_func h \<noteq> hid)) (handlers s topic)"
  by (simp add: untrack_handler_def split: option.splits)

lemma publish_on_cleared_topic:
  assumes "bus_broker s = Some (Memory b)"
      and "subscriptions b topic = None \<or> subscriptions b topic = Some []"
  shows "bus_broker (snd (Bus_publish beh io_ok topic m s)) = Some (Memory b)"
  using assms
  by (cases "type_value (mtype m)")
     (auto simp: Bus_publish_def publish_failed_def broker_publish_def
                 MemoryBroker_publish_quiet_def Let_def)

text \<open>
  Claim C10: on a bus over the in-memory broker, unsubscribing one handler id from a
  topic succeeds and empties the broker's whole subscription list of that topic: a
  publish on the topic afterwards invokes no handler at all, whatever the id was, while
  the bus's own registry only loses the entries of that id.
\<close>

theorem memory_unsubscribe_removes_every_handler:
  assumes "bus_broker s = Some (Memory b)"
  shows "fst (Bus_unsubscribe io_ok topic hid s) = Inr ()
     \<and> bus_delivered (snd (Bus_publish beh io2 topic m (snd (Bus_unsubscribe io_ok topic hid s))))
         = bus_delivered s
     \<and> handlers (snd (Bus_unsubscribe io_ok topic hid s)) topic
         = map_option (filter (\<lambda>h. handler_func h \<noteq> hid)) (handlers s topic)"
proof -
  let ?s1 = "snd (Bus_unsubscribe io_ok topic hid s)"
  let ?b1 = "MemoryBroker_unsubscribe topic hid b"
  have r: "fst (Bus_unsubscribe io_ok topic hid s) = Inr ()"
    using assms by (simp add: Bus_unsubscribe_def)
  have br: "bus_broker ?s1 = Some (Memory ?b1)"
    using assms by (simp add: Bus_unsubscribe_def untrack_handler_frame)
  have cl: "subscriptions ?b1 topic = None \<or> subscriptions ?b1 topic = Some []"
    by (rule memory_unsubscribe_clears)
  have pub: "bus_broker (snd (Bus_publish beh io2 topic m ?s1)) = Some (Memory ?b1)"
    by (rule publish_on_cleared_topic[OF br cl])
  have d: "bus_delivered (snd (Bus_publish beh io2 topic m ?s1)) = bus_delivered s"
    using pub assms by (simp add: bus_delivered_def memory_unsubscribe_delivered)
  have h: "handlers ?s1 topic = map_option (filter (\<lambda>h. handler_func h \<noteq> hid)) (handlers s topic)"
    using assms by (simp add: Bus_unsubscribe_def untrack_handler_registry)
  show ?thesis using r d h by simp
qed

lemma example_bus_broker: "bus_broker example_bus = Some (Memory example_broker)"
  by (simp add: example_bus_def example_broker_def Bus_subscribe_def Bus_initialize_def
        new_bus_def track_handler_def Let_def)

lemma example_bus_handlers:
  "handlers example_bus ''t'' =
     Some [\<lparr>handler_func = 1, message_types = [], message_count = 0\<rparr>,
           \<lparr>handler_func = 2, message_types = [], message_count = 0\<rparr>]"
  by (simp add: example_bus_def Bus_subscribe_def Bus_initialize_def
        new_bus_def track_handler_def Let_def)

lemma example_bus_delivered: "bus_delivered example_bus = []"
  by (simp add: example_bus_broker bus_delivered_def example_broker_def
       MemoryBroker_subscribe_def new_memory_broker_def Let_def)

text \<open>Claim C10 on the example bus: handlers 1 and 2 are subscribed to \<open>t\<close>; after
  unsubscribing handler 1 a publish on \<open>t\<close> reaches nobody, though handler 2 is still
  registered.\<close>

theorem memory_unsubscribe_removes_every_handler_witness:
  "bus_broker example_bus = Some (Memory example_broker)
   \<and> fst (Bus_unsubscribe True ''t'' 1 example_bus) = Inr ()
   \<and> bus_delivered (snd (Bus_publish all_return True ''t'' example_message
                            (snd (Bus_unsubscribe True ''t'' 1 example_bus)))) = []
   \<and> handlers (snd (Bus_unsubscribe True ''t'' 1 example_bus)) ''t''
       = Some [\<lparr>handler_func = 2, message_types = [], message_count = 0\<rparr>]"
  using memory_unsubscribe_removes_every_handler[OF example_bus_broker, of True "''t''" 1
          all_return True example_message]
  by (simp add: example_bus_broker example_bus_handlers example_bus_delivered)

text \<open>Before the unsubscribe the same publish reaches both handlers.\<close>

lemma example_bus_publish_delivers:
  "bus_delivered (snd (Bus_publish all_return True ''t'' example_message example_bus))
     = [(\<lparr>w_func = 1, w_types = None, w_topic = ''t''\<rparr>, example_message),
        (\<lparr>w_func = 2, w_types = None, w_topic = ''t''\<rparr>, example_message)]"
  by (simp add: example_bus_def Bus_subscribe_def Bus_initialize_def Bus_publish_def
        broker_publish_def MemoryBroker_publish_quiet_def MemoryBroker_subscribe_def
        new_memory_broker_def new_bus_def track_handler_def wrapped_run_def all_return_def
        bus_delivered_def example_message_def Let_def)
section \<open>Recorded lifecycle transitions\<close>


lemma set_state_history: "state_history (set_state st a) = state_history a @ [(state a, st)]"
  and set_state_state: "state (set_state st a) = st"
  by (simp_all add: set_state_def)










section \<open>Targets are available workers, loads stay within capacity\<close>

lemma find_best_agent_Some:
  assumes "find_best_agent pool sk sp l = Some t"
  shows "\<exists>a\<in>set pool. agent_id a = t \<and> candidate_ok sk sp l a"
proof -
  let ?cs = "filter (candidate_ok sk sp l) pool"
  let ?sorted = "rev (sort_key (\<lambda>a. (performance_score a, - load_percentage a)) (rev ?cs))"
  from assms obtain a rest where ar: "?sorted = a # rest" and t: "agent_id a = t"
    by (auto simp: find_best_agent_def Let_def split: if_splits list.splits)
  have "a \<in> set ?sorted" using ar by simp
  then have "a \<in> set ?cs" by simp
  then show ?thesis using t by auto
qed

lemma find_best_agent_available:
  "find_best_agent pool sk sp l = Some t \<Longrightarrow> \<exists>a\<in>set pool. agent_id a = t \<and> is_available a"
  using find_best_agent_Some[of pool sk sp l t] by (auto simp: candidate_ok_def)

lemma find_supervisor_available:
  "find_supervisor pool = Some t \<Longrightarrow> \<exists>a\<in>set pool. agent_id a = t \<and> is_available a"
proof -
  assume a: "find_supervisor pool = Some t"
  let ?cs = "filter (\<lambda>a. skill_level a = SUPERVISOR \<and> is_available a) pool"
  from a obtain x rest where xr: "?cs = x # rest" and t: "agent_id x = t"
    by (auto simp: find_supervisor_def split: list.splits)
  have "x \<in> set ?cs" using xr by simp
  then show ?thesis using t by auto
qed

lemma add_to_queue_pool: "available_agents (add_to_queue c cid md r s) = available_agents s"
  by (simp add: add_to_queue_def)

lemma rules_loop_target:
  "rules_loop rs f c cid md s = Some ((d, tg), s1) \<Longrightarrow>
   available_agents s1 = available_agents s \<and> target_available (available_agents s) tg"
proof (induction rs)
  case Nil
  then show ?case by simp
next
  case (Cons r rs)
  show ?case
  proof (cases "check_rule_conditions r f")
    case False
    then show ?thesis using Cons by simp
  next
    case True
    show ?thesis
    proof (cases "action r = AGENT_TRANSFER")
      case False
      then show ?thesis using Cons.prems True by (auto simp: target_available_def)
    next
      case tr: True
      let ?t = "find_best_agent (available_agents s) (target_skill_level r)
                  (target_specialization r) (language_of md)"
      show ?thesis
      proof (cases "truthy ?t")
        case False
        then show ?thesis using Cons.prems True tr
          by (auto simp: Let_def target_available_def add_to_queue_pool)
      next
        case tt: True
        then obtain t where t: "?t = Some t" by (cases ?t) auto
        have "target_available (available_agents s) ?t"
          using find_best_agent_available[OF t] t by (simp add: target_available_def)
        then show ?thesis using Cons.prems True tr tt by (auto simp: Let_def)
      qed
    qed
  qed
qed

lemma make_routing_decision_target:
  assumes "make_routing_decision c cid md sm qs s = ((d, tg), s1)"
  shows "available_agents s1 = available_agents s \<and> target_available (available_agents s) tg"
proof (cases "rules_loop (sort_key priority (routing_rules s)) (routing_factors c md sm) c cid md s")
  case (Some r)
  then have "r = ((d, tg), s1)" using assms by (simp add: make_routing_decision_def Let_def)
  then show ?thesis using rules_loop_target Some by blast
next
  case None
  have sup: "target_available (available_agents s) (find_supervisor (available_agents s))"
    using find_supervisor_available by (auto simp: target_available_def split: option.splits)
  have best: "\<And>sk sp l. target_available (available_agents s) (find_best_agent (available_agents s) sk sp l)"
    using find_best_agent_available by (auto simp: target_available_def split: option.splits)
  show ?thesis using assms None sup best
    by (auto simp: make_routing_decision_def Let_def target_available_def split: if_splits)
qed

lemma bump_load_ids: "map agent_id (bump_load t pool) = map agent_id pool"
  by (induction pool) (simp_all add: bump_load_def)

lemma bump_load_capacity:
  assumes "distinct (map agent_id pool)" "within_capacity pool"
      and "\<exists>a\<in>set pool. agent_id a = t \<and> is_available a"
  shows "within_capacity (bump_load t pool)"
proof -
  from assms(3) obtain a where a: "a \<in> set pool" "agent_id a = t" "is_available a" by blast
  have inj: "inj_on agent_id (set pool)" using assms(1) by (simp add: distinct_map)
  have "\<And>x. x \<in> set pool \<Longrightarrow> agent_id x = t \<Longrightarrow> current_load x + 1 \<le> max_capacity x"
  proof -
    fix x assume x: "x \<in> set pool" "agent_id x = t"
    then have "x = a" using inj a by (auto dest: inj_onD)
    then show "current_load x + 1 \<le> max_capacity x" using a(3) by (simp add: is_available_def)
  qed
  then show ?thesis using assms(2)
    by (auto simp: within_capacity_def bump_load_def list_all_iff)
qed

lemma bump_load_ok:
  "pool_ok pool \<Longrightarrow> target_available pool (Some t) \<Longrightarrow> pool_ok (bump_load t pool)"
  by (simp add: pool_ok_def bump_load_ids bump_load_capacity target_available_def)

lemma send_message_pool: "available_agents (send_message m s) = available_agents s"
  by (simp add: send_message_def)

lemma transfer_to_agent_pool: "available_agents (snd (transfer_to_agent cid t s)) = available_agents s"
  by (simp add: transfer_to_agent_def send_message_pool split: sum.splits)

lemma escalate_to_supervisor_pool:
  "available_agents (snd (escalate_to_supervisor cid t s)) = available_agents s"
  by (simp add: escalate_to_supervisor_def send_message_pool split: sum.splits)

lemma execute_routing_pool:
  "available_agents (snd (execute_routing c cid d tg s)) = available_agents s
   \<or> (\<exists>t. tg = Some t \<and> available_agents (snd (execute_routing c cid d tg s))
                           = bump_load t (available_agents s))"
proof -
  let ?s1 = "s\<lparr>active_routes := (active_routes s)
                  (cid \<mapsto> \<lparr>r_decision = d, r_target = tg, r_timestamp = utcnow c\<rparr>)\<rparr>"
  have p1: "available_agents ?s1 = available_agents s" by simp
  show ?thesis
  proof (cases tg)
    case None
    then show ?thesis
      by (cases d) (simp_all add: execute_routing_def send_message_pool schedule_callback_def Let_def)
  next
    case (Some t)
    have tr: "available_agents (snd (transfer_to_agent cid t ?s1)) = available_agents s"
      using transfer_to_agent_pool[of cid t ?s1] by simp
    have es: "available_agents (snd (escalate_to_supervisor cid t ?s1)) = available_agents s"
      using escalate_to_supervisor_pool[of cid t ?s1] by simp
    show ?thesis
    proof (cases d)
      case AGENT_TRANSFER
      obtain r s2 where x: "transfer_to_agent cid t ?s1 = (r, s2)"
        by (cases "transfer_to_agent cid t ?s1")
      then have "available_agents s2 = available_agents s" using tr by simp
      then show ?thesis using Some AGENT_TRANSFER x
        by (cases r) (auto simp: execute_routing_def Let_def)
    next
      case ESCALATE
      obtain r s2 where x: "escalate_to_supervisor cid t ?s1 = (r, s2)"
        by (cases "escalate_to_supervisor cid t ?s1")
      then have "available_agents s2 = available_agents s" using es by simp
      then show ?thesis using Some ESCALATE x
        by (cases r) (auto simp: execute_routing_def Let_def)
    qed (simp_all add: execute_routing_def send_message_pool schedule_callback_def Let_def)
  qed
qed

lemma handle_routing_request_ok:
  assumes "pool_ok (available_agents s)"
  shows "pool_ok (available_agents (handle_routing_request c req s))"
proof -
  obtain d tg s1 where m: "make_routing_decision c (req_call_id req) (req_metadata req)
      (req_summary req) (req_quality_score req) s = ((d, tg), s1)"
    by (metis surj_pair)
  have p1: "available_agents s1 = available_agents s"
    and ta: "target_available (available_agents s) tg"
    using make_routing_decision_target[OF m] by simp_all
  obtain r s2 where e: "execute_routing c (req_call_id req) d tg s1 = (r, s2)"
    by (cases "execute_routing c (req_call_id req) d tg s1")
  have "available_agents s2 = available_agents s1
        \<or> (\<exists>t. tg = Some t \<and> available_agents s2 = bump_load t (available_agents s1))"
    using execute_routing_pool[of c "req_call_id req" d tg s1] e by simp
  then have ok2: "pool_ok (available_agents s2)"
    using assms p1 ta bump_load_ok by auto
  show ?thesis using m e ok2
    by (cases r) (simp_all add: handle_routing_request_def send_message_pool)
qed

lemma sweep_loop_pool:
  "available_agents (snd (sweep_loop i items now processed s)) = available_agents s"
proof (induction items arbitrary: i processed s)
  case Nil
  then show ?case by simp
next
  case (Cons item rest)
  let ?t = "case queue_target (available_agents s) item of Some t \<Rightarrow> t | None \<Rightarrow> []"
  obtain r s1 where x: "transfer_to_agent (q_call_id item) ?t s = (r, s1)"
    by (cases "transfer_to_agent (q_call_id item) ?t s")
  have p1: "available_agents s1 = available_agents s"
    using transfer_to_agent_pool[of "q_call_id item" ?t s] x by simp
  have p2: "available_agents (schedule_callback (q_call_id item) s) = available_agents s"
    by (simp add: schedule_callback_def send_message_pool)
  show ?case using Cons.IH x p1 p2
    by (cases r) (simp_all add: Let_def)
qed

lemma process_queue_pool:
  "available_agents (snd (process_queue now s)) = available_agents s"
proof -
  obtain r s1 where x: "sweep_loop 0 (queue s) now [] s = (r, s1)"
    by (cases "sweep_loop 0 (queue s) now [] s")
  have "available_agents s1 = available_agents s"
    using sweep_loop_pool[of 0 "queue s" now "[]" s] x by simp
  then show ?thesis using x
    by (cases r) (simp_all add: process_queue_def split: sum.splits)
qed

lemma engine_step_ok: "pool_ok (available_agents s) \<Longrightarrow> pool_ok (available_agents (engine_step x s))"
  by (cases x) (simp_all add: handle_routing_request_ok process_queue_pool)

lemma engine_run_ok: "pool_ok (available_agents s) \<Longrightarrow> pool_ok (available_agents (engine_run xs s))"
  by (induction xs arbitrary: s) (simp_all add: engine_step_ok)

lemmas example_defs = example_clock_def urgent_negative_request_def technical_request_def
  specialist_busy_def example_waiting_def example_freed_def vip_rule_def catch_all_rule_def
  example_undeclared_def second_technical_request_def urgent_technical_request_def

text \<open>
  Claim C3: if the workers of the pool (a dictionary, so with distinct ids) all start with
  \<open>current_load \<le> max_capacity\<close>, then after any sequence of routing requests decided
  and executed, and of queue sweeps, every worker still has
  \<open>current_load \<le> max_capacity\<close>; and the target of any decision, when there is one, is a
  worker of the pool that is available (availability flag set and load below capacity).
\<close>

theorem load_never_exceeds_capacity:
  assumes "distinct (map agent_id (available_agents s))"
      and "within_capacity (available_agents s)"
  shows "within_capacity (available_agents (engine_run calls s))
     \<and> target_available (available_agents s)
          (snd (fst (make_routing_decision c cid md sm qs s)))"
proof -
  have inv: "within_capacity (available_agents (engine_run calls s))"
    using engine_run_ok[of s calls] assms by (simp add: pool_ok_def)
  obtain d tg s1 where m: "make_routing_decision c cid md sm qs s = ((d, tg), s1)"
    by (metis surj_pair)
  have "target_available (available_agents s) tg"
    using make_routing_decision_target[OF m] by simp
  then show ?thesis using inv m by simp
qed

text \<open>Claim C3 on the built-in pool: two technical calls and a sweep; the specialist is
  filled to its capacity of 4 and not beyond.\<close>

theorem load_never_exceeds_capacity_witness:
  "distinct (map agent_id (available_agents initialized_routing_agent))
   \<and> within_capacity (available_agents initialized_routing_agent)
   \<and> within_capacity (available_agents
        (engine_run [Route example_clock technical_request,
                     Route example_clock second_technical_request, Sweep 1000000]
           initialized_routing_agent))
   \<and> map current_load (available_agents
        (engine_run [Route example_clock technical_request,
                     Route example_clock second_technical_request, Sweep 1000000]
           initialized_routing_agent)) = [2, 4, 1, 0]"
proof -
  have d: "distinct (map agent_id (available_agents initialized_routing_agent))" by code_simp
  have w: "within_capacity (available_agents initialized_routing_agent)" by code_simp
  have l: "map current_load (available_agents
        (engine_run [Route example_clock technical_request,
                     Route example_clock second_technical_request, Sweep 1000000]
           initialized_routing_agent)) = [2, 4, 1, 0]"
    unfolding example_defs by code_simp
  show ?thesis
    using load_never_exceeds_capacity[OF d w, of "[Route example_clock technical_request,
                     Route example_clock second_technical_request, Sweep 1000000]"] d w l
    by simp
qed

section \<open>The wait-queue sweep\<close>

lemma marked_append: "marked P i (xs @ ys) = marked P i xs @ marked P (i + length xs) ys"
  by (induction xs arbitrary: i) simp_all

lemma pop_all_append:
  "pop_all (is @ js) q = (case pop_all is q of Inl e \<Rightarrow> Inl e | Inr q1 \<Rightarrow> pop_all js q1)"
  by (induction "is" arbitrary: q) (simp_all split: sum.splits)

lemma list_pop_middle: "list_pop (length pre) (pre @ y # suf) = Inr (pre @ suf)"
  by (simp add: list_pop_def)

lemma pop_marked:
  "pop_all (rev (marked P (length pre) items)) (pre @ items @ suf)
     = Inr (pre @ filter (\<lambda>x. \<not> P x) items @ suf)"
proof (induction items arbitrary: suf rule: rev_induct)
  case Nil
  then show ?case by simp
next
  case (snoc y ys)
  show ?case
  proof (cases "P y")
    case False
    then show ?thesis using snoc[of "y # suf"] by (simp add: marked_append)
  next
    case True
    have "list_pop (length pre + length ys) (pre @ ys @ y # suf) = Inr (pre @ ys @ suf)"
      using list_pop_middle[of "pre @ ys" y suf] by simp
    then show ?thesis using True snoc[of suf] by (simp add: marked_append)
  qed
qed

lemma transfer_to_agent_found:
  assumes "truthy (queue_target pool item)" "available_agents s = pool"
  shows "transfer_to_agent cid (case queue_target pool item of Some t \<Rightarrow> t | None \<Rightarrow> []) s
          = (Inr (), send_message (SentTransfer cid (case queue_target pool item of Some t \<Rightarrow> t | None \<Rightarrow> [])) s)"
proof -
  from assms(1) obtain t where t: "queue_target pool item = Some t" by (cases "queue_target pool item") auto
  then obtain a where "a \<in> set pool" "agent_id a = t"
    using find_best_agent_Some unfolding queue_target_def by blast
  then have "find (\<lambda>a. agent_id a = t) pool \<noteq> None" by (auto simp: find_None_iff)
  then show ?thesis using t assms(2) by (auto simp: transfer_to_agent_def pool_lookup_def)
qed

lemma sweep_loop_result:
  "sweep_loop i items now processed s =
     (Inr (processed @ marked (sweep_done (available_agents s) (max_queue_time s) now) i items),
      s\<lparr>sent_messages := sent_messages s @
           map (sweep_message (available_agents s))
               (filter (sweep_done (available_agents s) (max_queue_time s) now) items)\<rparr>)"
proof (induction items arbitrary: i processed s)
  case Nil
  then show ?case by simp
next
  case (Cons item rest)
  let ?pool = "available_agents s"
  show ?case
  proof (cases "truthy (queue_target ?pool item)")
    case True
    have tr: "transfer_to_agent (q_call_id item) (case queue_target ?pool item of Some t \<Rightarrow> t | None \<Rightarrow> []) s
          = (Inr (), send_message (SentTransfer (q_call_id item) (case queue_target ?pool item of Some t \<Rightarrow> t | None \<Rightarrow> [])) s)"
      by (rule transfer_to_agent_found[OF True refl])
    show ?thesis using True
      by (simp add: Let_def tr Cons.IH sweep_done_def sweep_message_def send_message_def)
  next
    case False
    then show ?thesis
      by (simp add: Let_def Cons.IH sweep_done_def sweep_message_def send_message_def schedule_callback_def)
  qed
qed

lemma process_queue_result:
  "process_queue now s =
     (Inr (),
      s\<lparr>sent_messages := sent_messages s @
           map (sweep_message (available_agents s))
               (filter (sweep_done (available_agents s) (max_queue_time s) now) (queue s)),
        queue := filter (\<lambda>item. \<not> sweep_done (available_agents s) (max_queue_time s) now item) (queue s)\<rparr>)"
  using pop_marked[of "sweep_done (available_agents s) (max_queue_time s) now" "[]" "queue s" "[]"]
  by (simp add: process_queue_def sweep_loop_result)

text \<open>
  Claim C7: in a sweep at time \<open>now\<close>, every queue entry that has waited longer than
  \<open>max_queue_time\<close> and for which the pool has no matching available worker gets a
  callback message and is removed from the queue.  The sweep returns normally, leaves the
  pool as it is, and keeps exactly the entries with no worker and no timeout.
\<close>

theorem sweep_converts_expired_entries:
  assumes "item \<in> set (queue s)"
      and "\<not> truthy (queue_target (available_agents s) item)"
      and "queue_time now item > max_queue_time s"
  shows "fst (process_queue now s) = Inr ()
     \<and> item \<notin> set (queue (snd (process_queue now s)))
     \<and> SentCallback (q_call_id item)
         \<in> set (drop (length (sent_messages s)) (sent_messages (snd (process_queue now s))))
     \<and> queue (snd (process_queue now s))
         = filter (\<lambda>x. \<not> sweep_done (available_agents s) (max_queue_time s) now x) (queue s)
     \<and> sent_messages (snd (process_queue now s))
         = sent_messages s @
           map (sweep_message (available_agents s))
               (filter (sweep_done (available_agents s) (max_queue_time s) now) (queue s))
     \<and> available_agents (snd (process_queue now s)) = available_agents s"
proof -
  let ?D = "sweep_done (available_agents s) (max_queue_time s) now"
  have dn: "?D item" using assms(3) by (simp add: sweep_done_def)
  have msg: "sweep_message (available_agents s) item = SentCallback (q_call_id item)"
    using assms(2) by (simp add: sweep_message_def)
  have "item \<in> set (filter ?D (queue s))" using assms(1) dn by simp
  then have "sweep_message (available_agents s) item
               \<in> set (map (sweep_message (available_agents s)) (filter ?D (queue s)))"
    unfolding set_map by (rule imageI)
  then have cb: "SentCallback (q_call_id item)
               \<in> set (map (sweep_message (available_agents s)) (filter ?D (queue s)))"
    using msg by simp
  show ?thesis using dn cb by (simp add: process_queue_result)
qed

text \<open>Claim C7 on the waiting example (scenario 3 of the specification): the call queued
  at time 0 with no specialist free is, 301 seconds later, answered by a callback and
  dequeued.\<close>

theorem sweep_converts_expired_entries_witness:
  "queue example_waiting ! 0 \<in> set (queue example_waiting)
   \<and> \<not> truthy (queue_target (available_agents example_waiting) (queue example_waiting ! 0))
   \<and> queue_time 301000000 (queue example_waiting ! 0) > max_queue_time example_waiting
   \<and> fst (process_queue 301000000 example_waiting) = Inr ()
   \<and> queue (snd (process_queue 301000000 example_waiting)) = []
   \<and> drop (length (sent_messages example_waiting))
        (sent_messages (snd (process_queue 301000000 example_waiting)))
       = [SentCallback (Some ''call-3'')]"
proof -
  have a: "queue example_waiting ! 0 \<in> set (queue example_waiting)"
    unfolding example_defs by code_simp
  have b: "\<not> truthy (queue_target (available_agents example_waiting) (queue example_waiting ! 0))"
    unfolding example_defs by code_simp
  have c: "queue_time 301000000 (queue example_waiting ! 0) > max_queue_time example_waiting"
    unfolding example_defs by code_simp
  have q: "queue (snd (process_queue 301000000 example_waiting)) = []"
    unfolding example_defs by code_simp
  have m: "drop (length (sent_messages example_waiting))
        (sent_messages (snd (process_queue 301000000 example_waiting)))
       = [SentCallback (Some ''call-3'')]"
    unfolding example_defs by code_simp
  show ?thesis
    using sweep_converts_expired_entries[OF a b c] a b c q m by simp
qed

text \<open>One second after queueing, the same entry is kept and nothing is sent.\<close>

lemma sweep_keeps_waiting_entry:
  "queue (snd (process_queue 1000000 example_waiting)) = queue example_waiting
   \<and> sent_messages (snd (process_queue 1000000 example_waiting)) = sent_messages example_waiting"
  unfolding example_defs by code_simp

text \<open>
  Claim C2 says that a transfer made by the queue sweep adds one to the target's
  \<open>current_load\<close>.  In the example a specialist with load 3 of 4 is free again and a call
  waits for it: the sweep sends the transfer to \<open>AGT002\<close> and dequeues the call, and
  \<open>AGT002\<close> still has load 3.
\<close>

theorem sweep_transfer_leaves_load:
  "map current_load (available_agents example_freed) = [2, 3, 1, 0]
   \<and> map q_call_id (queue example_freed) = [Some ''call-3'']
   \<and> fst (process_queue 1000000 example_freed) = Inr ()
   \<and> sent_messages (snd (process_queue 1000000 example_freed))
       = sent_messages example_freed @ [SentTransfer (Some ''call-3'') ''AGT002'']
   \<and> queue (snd (process_queue 1000000 example_freed)) = []
   \<and> map current_load (available_agents (snd (process_queue 1000000 example_freed)))
       = [2, 3, 1, 0]"
  unfolding example_defs by code_simp

section \<open>Rule evaluation\<close>

lemma find_filter_keep:
  "find P ys = Some r \<Longrightarrow> Q r \<Longrightarrow> find P (filter Q ys) = Some r"
  by (induction ys) (auto split: if_splits)

lemma find_sorted_least:
  assumes "find P ys = Some r" "sorted (map k ys)" "x \<in> set ys" "P x"
  shows "k r \<le> k x"
proof -
  from assms(1) obtain i where i: "i < length ys" "ys ! i = r" "\<forall>j<i. \<not> P (ys ! j)"
    by (auto simp: find_Some_iff)
  from assms(3) obtain j where j: "j < length ys" "ys ! j = x" by (auto simp: in_set_conv_nth)
  have "i \<le> j" using i(3) j(2) assms(4) by (metis not_le)
  then have "map k ys ! i \<le> map k ys ! j"
    using assms(2) j(1) by (simp add: sorted_iff_nth_mono)
  then show ?thesis using i j by simp
qed

lemma first_matching_rule_props:
  assumes "first_matching_rule rules f = Some r"
  shows "r \<in> set rules" "check_rule_conditions r f"
    "list_all (\<lambda>x. check_rule_conditions x f \<longrightarrow> priority r \<le> priority x) rules"
    "find (\<lambda>x. check_rule_conditions x f) (filter (\<lambda>x. priority x = priority r) rules) = Some r"
proof -
  let ?P = "\<lambda>x. check_rule_conditions x f"
  let ?ys = "sort_key priority rules"
  have fnd: "find ?P ?ys = Some r" using assms by (simp add: first_matching_rule_def)
  from fnd obtain i where i: "i < length ?ys" "?P (?ys ! i)" "r = ?ys ! i"
    by (auto simp: find_Some_iff)
  have "r \<in> set ?ys" using i(1,3) nth_mem by blast
  then show "r \<in> set rules" by simp
  show "check_rule_conditions r f" using i by simp
  have "\<And>x. x \<in> set rules \<Longrightarrow> ?P x \<Longrightarrow> priority r \<le> priority x"
    using find_sorted_least[OF fnd, of priority] by simp
  then show "list_all (\<lambda>x. check_rule_conditions x f \<longrightarrow> priority r \<le> priority x) rules"
    by (simp add: list_all_iff)
  have "find ?P (filter (\<lambda>x. priority x = priority r) ?ys) = Some r"
    by (rule find_filter_keep[OF fnd]) simp
  then show "find ?P (filter (\<lambda>x. priority x = priority r) rules) = Some r"
    by (simp add: sort_key_stable)
qed

lemma rules_loop_find:
  "rules_loop rs f c cid md s =
     (case find (\<lambda>r. check_rule_conditions r f) rs of
        None \<Rightarrow> None
      | Some r \<Rightarrow>
          Some (if action r = AGENT_TRANSFER
                then (if truthy (find_best_agent (available_agents s) (target_skill_level r)
                                   (target_specialization r) (language_of md))
                      then ((AGENT_TRANSFER,
                             find_best_agent (available_agents s) (target_skill_level r)
                               (target_specialization r) (language_of md)), s)
                      else ((CALLBACK, None), add_to_queue c cid md r s))
                else ((action r, None), s)))"
  by (induction rs) (simp_all add: Let_def)

text \<open>What \<^verbatim>\<open>_check_rule_conditions\<close> accepts: a declared key that is no factor
  counts as met.\<close>

lemma conditions_hold_declared:
  "conditions_hold cs f =
     list_all (\<lambda>(key, expected_value).
                 case f key of None \<Rightarrow> True | Some v \<Rightarrow> py_eq v expected_value) cs"
  by (induction cs f rule: conditions_hold.induct) (auto split: option.splits)

text \<open>
  Claim C5, amended: the rule that decides is the first one, in ascending priority and
  in list order among equal priorities, whose declared conditions on the five call
  attributes all hold (a condition on any other key is ignored); no matching rule has a
  smaller priority.  Its action is the decision returned, with no target, unless the
  action is a transfer: then the target is the best available worker, and when there is
  none the call is queued and the decision is a callback.
\<close>

theorem first_matching_rule_decides:
  assumes "first_matching_rule (routing_rules s) (routing_factors c md sm) = Some r"
  shows "r \<in> set (routing_rules s)
     \<and> check_rule_conditions r (routing_factors c md sm)
     \<and> list_all (\<lambda>x. check_rule_conditions x (routing_factors c md sm) \<longrightarrow> priority r \<le> priority x)
          (routing_rules s)
     \<and> find (\<lambda>x. check_rule_conditions x (routing_factors c md sm))
          (filter (\<lambda>x. priority x = priority r) (routing_rules s)) = Some r
     \<and> make_routing_decision c cid md sm qs s =
         (if action r = AGENT_TRANSFER
          then (if truthy (find_best_agent (available_agents s) (target_skill_level r)
                             (target_specialization r) (language_of md))
                then ((AGENT_TRANSFER,
                       find_best_agent (available_agents s) (target_skill_level r)
                         (target_specialization r) (language_of md)), s)
                else ((CALLBACK, None), add_to_queue c cid md r s))
          else ((action r, None), s))"
proof -
  have f: "find (\<lambda>r. check_rule_conditions r (routing_factors c md sm))
             (sort_key priority (routing_rules s)) = Some r"
    using assms by (simp add: first_matching_rule_def)
  have d: "make_routing_decision c cid md sm qs s =
         (if action r = AGENT_TRANSFER
          then (if truthy (find_best_agent (available_agents s) (target_skill_level r)
                             (target_specialization r) (language_of md))
                then ((AGENT_TRANSFER,
                       find_best_agent (available_agents s) (target_skill_level r)
                         (target_specialization r) (language_of md)), s)
                else ((CALLBACK, None), add_to_queue c cid md r s))
          else ((action r, None), s))"
    by (simp add: make_routing_decision_def rules_loop_find f Let_def)
  show ?thesis using first_matching_rule_props[OF assms] d by blast
qed

text \<open>Claim C5 on the built-in rules: the call matches R001 (priority 1) and R002
  (priority 2), and the decision is R001's action.\<close>

theorem first_matching_rule_decides_witness:
  "first_matching_rule (routing_rules initialized_routing_agent)
      (routing_factors example_clock (req_metadata urgent_technical_request)
         (req_summary urgent_technical_request)) = Some (load_routing_rules ! 0)
   \<and> check_rule_conditions (load_routing_rules ! 1)
        (routing_factors example_clock (req_metadata urgent_technical_request)
           (req_summary urgent_technical_request))
   \<and> priority (load_routing_rules ! 0) = 1 \<and> priority (load_routing_rules ! 1) = 2
   \<and> make_routing_decision example_clock (Some ''call-4'')
        (req_metadata urgent_technical_request) (req_summary urgent_technical_request) None
        initialized_routing_agent = ((ESCALATE, None), initialized_routing_agent)"
proof -
  have h: "first_matching_rule (routing_rules initialized_routing_agent)
      (routing_factors example_clock (req_metadata urgent_technical_request)
         (req_summary urgent_technical_request)) = Some (load_routing_rules ! 0)"
    unfolding example_defs by code_simp
  have a: "action (load_routing_rules ! 0) = ESCALATE" by code_simp
  have m: "check_rule_conditions (load_routing_rules ! 1)
        (routing_factors example_clock (req_metadata urgent_technical_request)
           (req_summary urgent_technical_request))"
    unfolding example_defs by code_simp
  have p: "priority (load_routing_rules ! 0) = 1 \<and> priority (load_routing_rules ! 1) = 2"
    by code_simp
  show ?thesis
    using first_matching_rule_decides[OF h, of "Some ''call-4''" None] h a m p by simp
qed

text \<open>
  Claim C5 as stated fails in two ways.  With the only specialist busy, the first rule
  matching a technical call is R002, whose action is a transfer, yet the decision is a
  callback.  And with a first rule whose condition key \<open>vip\<close> is no call attribute, the
  first rule whose declared keys all match is the second one (auto-resolve), yet the
  decision is the first rule's (end call).
\<close>

theorem first_match_counterexample:
  "spec_first_rule (routing_rules specialist_busy)
      (routing_factors example_clock (req_metadata second_technical_request)
         (req_summary second_technical_request)) = Some (load_routing_rules ! 1)
   \<and> action (load_routing_rules ! 1) = AGENT_TRANSFER
   \<and> fst (make_routing_decision example_clock (req_call_id second_technical_request)
            (req_metadata second_technical_request) (req_summary second_technical_request)
            (req_quality_score second_technical_request) specialist_busy) = (CALLBACK, None)
   \<and> spec_first_rule (routing_rules example_undeclared)
      (routing_factors example_clock (req_metadata technical_request)
         (req_summary technical_request)) = Some catch_all_rule
   \<and> action catch_all_rule = AUTO_RESOLVE
   \<and> fst (make_routing_decision example_clock (req_call_id technical_request)
            (req_metadata technical_request) (req_summary technical_request)
            (req_quality_score technical_request) example_undeclared) = (END_CALL, None)"
  unfolding example_defs by code_simp

text \<open>
  Claim C1 says that when an escalate rule is the first match and a supervisor is
  available, the decision targets that supervisor and executing it adds one to the
  supervisor's load.  On the built-in rules and pool, for an urgent call with negative
  sentiment, the decision is escalate with no target although \<open>SUP001\<close> is an available
  supervisor; handling the request sends nothing and leaves every load as it was.
\<close>

theorem escalation_rule_yields_no_target:
  "fst (make_routing_decision example_clock (req_call_id urgent_negative_request)
      (req_metadata urgent_negative_request) (req_summary urgent_negative_request)
      (req_quality_score urgent_negative_request) initialized_routing_agent)
     = (ESCALATE, None)
   \<and> find_supervisor (available_agents initialized_routing_agent) = Some ''SUP001''
   \<and> map current_load
        (available_agents (handle_routing_request example_clock urgent_negative_request
                             initialized_routing_agent)) = [2, 3, 1, 0]
   \<and> sent_messages (handle_routing_request example_clock urgent_negative_request
                       initialized_routing_agent) = []"
  unfolding example_defs by code_simp

end
